theory Spec2Isabelle
  imports Complex_Main "HOL-Library.Word"
begin

section \<open>JavaScript values\<close>

text \<open>
  A JavaScript string is a sequence of UTF-16 code units; \<open>.length\<close> counts code units.
  \<open>js\<close> writes an ASCII literal of the source as such a sequence.
\<close>

type_synonym code_unit = "16 word"
type_synonym jsstring = "code_unit list"

definition js :: "string \<Rightarrow> jsstring" where
  "js s = map of_char s"

text \<open>
  Numbers are IEEE doubles. The code only asks for their \<open>typeof\<close>, their truthiness and
  whether two of them are the same under SameValueZero (\<open>Array.prototype.includes\<close>), so a
  finite double is identified with the rational it denotes: \<open>+0\<close> and \<open>-0\<close> coincide, as they
  do under SameValueZero, and \<open>NaN\<close> is the same as itself.
\<close>

datatype number = NaN | Infinity bool | Finite rat

text \<open>
  Every value \<open>JSON.parse\<close> can return, and \<open>undefined\<close>, which reading an absent property
  gives. An object is the list of its own properties.
\<close>

datatype jsval =
    Undefined
  | Null
  | Bool bool
  | Number number
  | String jsstring
  | Array "jsval list"
  | Object "(jsstring \<times> jsval) list"

datatype jstype = TUndefined | TObject | TBoolean | TNumber | TString

fun typeof :: "jsval \<Rightarrow> jstype" where
  "typeof Undefined = TUndefined"
| "typeof Null = TObject"
| "typeof (Bool b) = TBoolean"
| "typeof (Number n) = TNumber"
| "typeof (String s) = TString"
| "typeof (Array xs) = TObject"
| "typeof (Object kvs) = TObject"

fun isArray :: "jsval \<Rightarrow> bool" where
  "isArray (Array xs) = True"
| "isArray v = False"

text \<open>The condition of \<open>if (v)\<close>: every object and array is truthy, also the empty array.\<close>

fun truthy :: "jsval \<Rightarrow> bool" where
  "truthy Undefined = False"
| "truthy Null = False"
| "truthy (Bool b) = b"
| "truthy (Number n) = (n \<noteq> NaN \<and> n \<noteq> Finite 0)"
| "truthy (String s) = (s \<noteq> [])"
| "truthy (Array xs) = True"
| "truthy (Object kvs) = True"

text \<open>
  \<open>v.k\<close> for the property names the code reads (\<open>level\<close>, \<open>md5\<close>, \<open>sha256\<close>, \<open>levels\<close>,
  \<open>level_order\<close>, \<open>name\<close>, \<open>symbol\<close>, \<open>data_url\<close>): the own property of an object, and
  \<open>undefined\<close> when there is none. The code reads properties of values it has checked
  to be objects, or that its types declare as objects.
\<close>

fun property :: "jsval \<Rightarrow> jsstring \<Rightarrow> jsval" where
  "property (Object kvs) k = (case map_of kvs k of None \<Rightarrow> Undefined | Some v \<Rightarrow> v)"
| "property v k = Undefined"

section \<open>The table\<close>

record BMSTable =
  head :: jsval
  body :: "jsval list"

text \<open>The loop of \<open>getLevelOrder\<close>; \<open>levels\<close> is the array being filled.\<close>

fun sniff_levels :: "jsval list \<Rightarrow> jsval list \<Rightarrow> jsval list" where
  "sniff_levels [] levels = levels"
| "sniff_levels (chart # charts) levels =
     (if property chart (js ''level'') \<notin> set levels
      then sniff_levels charts (levels @ [property chart (js ''level'')])
      else sniff_levels charts levels)"

definition getLevelOrder :: "BMSTable \<Rightarrow> jsval" where
  "getLevelOrder t =
     (if truthy (property (head t) (js ''levels'')) then property (head t) (js ''levels'')
      else if truthy (property (head t) (js ''level_order'')) then property (head t) (js ''level_order'')
      else Array (sniff_levels (body t) []))"

section \<open>The header schema\<close>

text \<open>
  \<open>HEAD_SCHEMA\<close> is a zod schema; \<open>safeParse(v).success\<close> is modelled. \<open>z.string()\<close> and
  \<open>z.number()\<close> test the type (\<open>z.number()\<close> refuses \<open>NaN\<close>), \<open>z.optional(s)\<close> accepts
  \<open>undefined\<close> and whatever \<open>s\<close> accepts, \<open>z.object\<close> accepts a non-null, non-array object
  whose listed keys pass and ignores every other key.
\<close>

fun z_string :: "jsval \<Rightarrow> bool" where
  "z_string (String s) = True"
| "z_string v = False"

fun z_number :: "jsval \<Rightarrow> bool" where
  "z_number (Number n) = (n \<noteq> NaN)"
| "z_number v = False"

definition z_number_or_string :: "jsval \<Rightarrow> bool" where
  "z_number_or_string v = (z_number v \<or> z_string v)"

fun z_array :: "(jsval \<Rightarrow> bool) \<Rightarrow> jsval \<Rightarrow> bool" where
  "z_array s (Array xs) = list_all s xs"
| "z_array s v = False"

definition z_optional :: "(jsval \<Rightarrow> bool) \<Rightarrow> jsval \<Rightarrow> bool" where
  "z_optional s v = (v = Undefined \<or> s v)"

fun z_is_object :: "jsval \<Rightarrow> bool" where
  "z_is_object (Object kvs) = True"
| "z_is_object v = False"

definition HEAD_SCHEMA :: "jsval \<Rightarrow> bool" where
  "HEAD_SCHEMA v =
     (z_is_object v
      \<and> z_string (property v (js ''name''))
      \<and> z_string (property v (js ''symbol''))
      \<and> z_string (property v (js ''data_url''))
      \<and> z_optional (z_array z_number_or_string) (property v (js ''levels''))
      \<and> z_optional (z_array z_number_or_string) (property v (js ''level_order'')))"

section \<open>Errors\<close>

text \<open>
  Every \<open>throw\<close> of the source is one constructor, carrying what its message interpolates.
  \<open>FetchRejected\<close>, \<open>TextRejected\<close>, \<open>SyntaxError\<close> and \<open>InvalidURL\<close>
  are the exceptions of \<open>fetch\<close>, \<open>Response.text\<close>, \<open>JSON.parse\<close> and \<open>new URL\<close> that the
  code lets through. \<open>TypeError\<close> is the exception of a template literal that cannot turn
  a value into a string.
\<close>

datatype error =
    FetchRejected
  | TextRejected
  | ZeroRetries jsstring
  | FetchFailed jsstring int
  | NoBmstableTag jsstring
  | InvalidURL
  | SyntaxError
  | FailedHeaderRead
  | InvalidHead
  | FailedBodyRead
  | InvalidBody jstype
  | TypeError

section \<open>The body\<close>

definition LEN_MD5_HEX_HASH :: nat where
  "LEN_MD5_HEX_HASH = length (js ''d0f497c0f955e7edfb0278f446cdb6f8'')"

definition LEN_SHA256_HEX_HASH :: nat where
  "LEN_SHA256_HEX_HASH =
     length (js ''769359ebb55d3d6dff3b5c6a07ec03be9b87beda1ffb0c07d7ea99590605a732'')"

text \<open>
  \<open>typeof v !== "string" || v.length !== n\<close>; the length is read only of a string.
\<close>

fun not_string_of_length :: "jsval \<Rightarrow> nat \<Rightarrow> bool" where
  "not_string_of_length (String s) n = (length s \<noteq> n)"
| "not_string_of_length v n = True"

text \<open>
  The body of the loop of \<open>ExtractBMSBody\<close>: \<open>Skip\<close> is each \<open>continue\<close>, \<open>KeepSHA256\<close> the
  branch commented "we have a valid sha256", \<open>KeepMD5\<close> the branch commented
  "we have a valid md5". Both of the latter reach the \<open>push\<close>.
\<close>

datatype verdict = Skip | KeepMD5 | KeepSHA256

definition check_entry :: "jsval \<Rightarrow> verdict" where
  "check_entry entry =
     (if entry = Null then Skip
      else if typeof entry \<noteq> TObject \<or> isArray entry then Skip
      else if typeof (property entry (js ''level'')) \<noteq> TNumber
              \<and> typeof (property entry (js ''level'')) \<noteq> TString then Skip
      else if not_string_of_length (property entry (js ''md5'')) LEN_MD5_HEX_HASH then
        (if not_string_of_length (property entry (js ''sha256'')) LEN_SHA256_HEX_HASH then Skip
         else KeepSHA256)
      else KeepMD5)"

fun ExtractBMSBody_loop :: "jsval list \<Rightarrow> jsval list \<Rightarrow> jsval list" where
  "ExtractBMSBody_loop [] bmsTableEntries = bmsTableEntries"
| "ExtractBMSBody_loop (entry # rest) bmsTableEntries =
     (if check_entry entry = Skip then ExtractBMSBody_loop rest bmsTableEntries
      else ExtractBMSBody_loop rest (bmsTableEntries @ [entry]))"

text \<open>
  The message of the error for a value that is not an array is the template
  \<^verbatim>\<open>`Invalid body.json -- got ${typeof rawData} (${rawData}) instead of an array.`\<close>, and
  \<^verbatim>\<open>${rawData}\<close> turns the value into a string before the error exists. For \<open>undefined\<close>,
  \<open>null\<close>, a boolean, a number and a string that always works. For an object it calls the
  property \<open>toString\<close>, then \<open>valueOf\<close>: without an own \<open>toString\<close> the inherited one
  answers \<^verbatim>\<open>[object Object]\<close>; an own \<open>toString\<close> of a decoded document is never a function,
  the inherited \<open>valueOf\<close> returns the object itself and an own one is no function either,
  so the conversion throws a \<open>TypeError\<close> and the error with the type is never built.
  \<open>own_toString\<close> is asked of values that are not arrays only.
\<close>

fun own_toString :: "jsval \<Rightarrow> bool" where
  "own_toString (Object kvs) = (map_of kvs (js ''toString'') \<noteq> None)"
| "own_toString v = False"

definition ExtractBMSBody :: "jsval \<Rightarrow> error + jsval list" where
  "ExtractBMSBody rawData =
     (case rawData of
        Array entries \<Rightarrow> Inr (ExtractBMSBody_loop entries [])
      | _ \<Rightarrow>
          if own_toString rawData then Inl TypeError
          else Inl (InvalidBody (typeof rawData)))"

section \<open>The retrying fetcher\<close>

text \<open>
  What the code reads of a \<open>Response\<close>: \<open>status\<close>, \<open>headers.get("Content-Type")\<close>
  (\<open>None\<close> is \<open>null\<close>) and \<open>text()\<close> (\<open>None\<close>: the promise is rejected).
\<close>

record response =
  status :: int
  content_type :: "jsstring option"
  text_of :: "jsstring option"

datatype fetch_outcome = Rejected | Responded response

text \<open>
  \<open>fetch\<close> belongs to the environment: \<open>net n url\<close> is what the request number \<open>n\<close>
  gets when it asks for \<open>url\<close>. The functions that fetch take the number of requests made so
  far and return it updated. \<open>options\<close> is handed to \<open>fetch\<close> unread and left out.

  The \<open>while\<close> loop of \<open>FetchWithRetry\<close>, with its variables \<open>tries\<close> and \<open>lastRes\<close>, and the
  two \<open>throw\<close>s after it.
\<close>

function FetchWithRetry_loop ::
  "(nat \<Rightarrow> jsstring \<Rightarrow> fetch_outcome) \<Rightarrow> jsstring \<Rightarrow> int \<Rightarrow> int \<Rightarrow> response option \<Rightarrow> nat
     \<Rightarrow> (error + response) \<times> nat" where
  "FetchWithRetry_loop net url retryCount tries lastRes n =
     (if tries < retryCount then
        (case net n url of
           Rejected \<Rightarrow> (Inl FetchRejected, Suc n)
         | Responded res \<Rightarrow>
             if status res = 200 then (Inr res, Suc n)
             else FetchWithRetry_loop net url retryCount (tries + 1) (Some res) (Suc n))
      else
        (case lastRes of
           None \<Rightarrow> (Inl (ZeroRetries url), n)
         | Some res \<Rightarrow> (Inl (FetchFailed url (status res)), n)))"
  by pat_completeness auto
termination
  by (relation "measure (\<lambda>(net, url, retryCount, tries, lastRes, n). nat (retryCount - tries))") auto

definition FetchWithRetry_n ::
  "(nat \<Rightarrow> jsstring \<Rightarrow> fetch_outcome) \<Rightarrow> jsstring \<Rightarrow> int \<Rightarrow> nat \<Rightarrow> (error + response) \<times> nat" where
  "FetchWithRetry_n net url retryCount n = FetchWithRetry_loop net url retryCount 0 None n"

text \<open>\<open>retryCount = 3\<close> is the default, and the one every call in the code uses.\<close>

definition FetchWithRetry ::
  "(nat \<Rightarrow> jsstring \<Rightarrow> fetch_outcome) \<Rightarrow> jsstring \<Rightarrow> nat \<Rightarrow> (error + response) \<times> nat" where
  "FetchWithRetry net url n = FetchWithRetry_n net url 3 n"

section \<open>Sniffing, the meta tag, the lenient decoder\<close>

text \<open>
  The characters of \<open>\s\<close> and of \<open>trimStart\<close>: WhiteSpace and LineTerminator of ECMAScript.
  \<open>.\<close> matches everything but a LineTerminator.
\<close>

definition is_line_terminator :: "code_unit \<Rightarrow> bool" where
  "is_line_terminator c = (c = 0x000A \<or> c = 0x000D \<or> c = 0x2028 \<or> c = 0x2029)"

definition is_white_space :: "code_unit \<Rightarrow> bool" where
  "is_white_space c =
     (c = 0x0009 \<or> c = 0x000B \<or> c = 0x000C \<or> c = 0x0020 \<or> c = 0x00A0 \<or> c = 0x1680
      \<or> (0x2000 \<le> c \<and> c \<le> 0x200A) \<or> c = 0x202F \<or> c = 0x205F \<or> c = 0x3000 \<or> c = 0xFEFF)"

definition is_space :: "code_unit \<Rightarrow> bool" where
  "is_space c = (is_white_space c \<or> is_line_terminator c)"

text \<open>Matching a literal at the start of a text gives the rest of the text.\<close>

fun strip_prefix :: "jsstring \<Rightarrow> jsstring \<Rightarrow> jsstring option" where
  "strip_prefix [] s = Some s"
| "strip_prefix (p # ps) [] = None"
| "strip_prefix (p # ps) (c # cs) = (if p = c then strip_prefix ps cs else None)"

text \<open>\<open>s.includes(p)\<close>\<close>

fun str_includes :: "jsstring \<Rightarrow> jsstring \<Rightarrow> bool" where
  "str_includes [] p = (p = [])"
| "str_includes (c # cs) p = (strip_prefix p (c # cs) \<noteq> None \<or> str_includes cs p)"

datatype doctype = HTML | JSON

text \<open>The guess made without a content type, from the first character after \<open>trimStart\<close>.\<close>

definition guess_doctype :: "jsstring \<Rightarrow> doctype" where
  "guess_doctype resText =
     (case dropWhile is_space resText of
        [] \<Rightarrow> HTML
      | firstChar # rest \<Rightarrow> if firstChar = of_char CHR ''{'' then JSON else HTML)"

definition IsHTMLOrJSON :: "response \<Rightarrow> jsstring \<Rightarrow> doctype" where
  "IsHTMLOrJSON res resText =
     (case content_type res of
        None \<Rightarrow> guess_doctype resText
      | Some contentType \<Rightarrow>
          if contentType = [] then guess_doctype resText
          else if str_includes contentType (js ''application/json'') then JSON
          else HTML)"

text \<open>
  \<open>ReadMetaTag\<close> runs the regular expression
  \<^verbatim>\<open><meta[\s]+name="bmstable".*?="(.*?)"\<close> once from the start of the text. The functions
  below are the backtracking matcher of that expression, read from its right end:

  \<^item> \<open>re_value acc s\<close> is \<^verbatim>\<open>(.*?)"\<close> at \<open>s\<close>, with \<open>acc\<close> captured so far: the lazy
    quantifier first tries to stop, that is to match the closing quote, and only then lets
    \<open>.\<close> take one more character;
  \<^item> \<open>re_attr s\<close> is \<^verbatim>\<open>.*?="(.*?)"\<close> at \<open>s\<close>: it first tries \<^verbatim>\<open>="\<close> and the value here, and
    when that fails lets \<open>.\<close> take one more character;
  \<^item> \<open>re_name s\<close> is \<^verbatim>\<open>name="bmstable".*?="(.*?)"\<close> at \<open>s\<close>;
  \<^item> \<open>re_spaces s\<close> is what follows the first character of \<^verbatim>\<open>[\s]+\<close>: the greedy
    quantifier first takes one more space, and when the rest fails, goes on from here;
  \<^item> \<open>re_meta s\<close> is the whole expression at \<open>s\<close>;
  \<^item> \<open>re_exec s\<close> tries every start from the left; the result is the first group of the
    first match, \<open>None\<close> when \<open>exec\<close> returns \<open>null\<close>.

  With the \<open>u\<close> flag the engine moves by code points; every literal of the expression is
  one ASCII code unit, which is never half of a surrogate pair, so the matches are the same
  as by code units. The flags \<open>g\<close> and \<open>m\<close> change nothing here: the expression object is
  new at every call and has no \<open>^\<close> or \<open>$\<close>.
\<close>

fun re_value :: "jsstring \<Rightarrow> jsstring \<Rightarrow> jsstring option" where
  "re_value acc [] = None"
| "re_value acc (c # cs) =
     (if c = of_char CHR 0x22 then Some acc
      else if is_line_terminator c then None
      else re_value (acc @ [c]) cs)"

definition re_attr_here :: "jsstring \<Rightarrow> jsstring option" where
  "re_attr_here s =
     (case strip_prefix [of_char CHR ''='', of_char CHR 0x22] s of
        None \<Rightarrow> None
      | Some rest \<Rightarrow> re_value [] rest)"

fun re_attr :: "jsstring \<Rightarrow> jsstring option" where
  "re_attr [] = re_attr_here []"
| "re_attr (c # cs) =
     (case re_attr_here (c # cs) of
        Some v \<Rightarrow> Some v
      | None \<Rightarrow> if is_line_terminator c then None else re_attr cs)"

definition bmstable_marker :: jsstring where
  "bmstable_marker = js ''name='' @ [of_char CHR 0x22] @ js ''bmstable'' @ [of_char CHR 0x22]"

definition re_name :: "jsstring \<Rightarrow> jsstring option" where
  "re_name s =
     (case strip_prefix bmstable_marker s of
        None \<Rightarrow> None
      | Some rest \<Rightarrow> re_attr rest)"

fun re_spaces :: "jsstring \<Rightarrow> jsstring option" where
  "re_spaces [] = re_name []"
| "re_spaces (c # cs) =
     (if is_space c then
        (case re_spaces cs of
           Some v \<Rightarrow> Some v
         | None \<Rightarrow> re_name (c # cs))
      else re_name (c # cs))"

definition re_meta :: "jsstring \<Rightarrow> jsstring option" where
  "re_meta s =
     (case strip_prefix (js ''<meta'') s of
        None \<Rightarrow> None
      | Some [] \<Rightarrow> None
      | Some (c # cs) \<Rightarrow> if is_space c then re_spaces cs else None)"

fun re_exec :: "jsstring \<Rightarrow> jsstring option" where
  "re_exec [] = re_meta []"
| "re_exec (c # cs) =
     (case re_meta (c # cs) of
        Some v \<Rightarrow> Some v
      | None \<Rightarrow> re_exec cs)"

definition ReadMetaTag :: "jsstring \<Rightarrow> jsstring option" where
  "ReadMetaTag html = re_exec html"

text \<open>
  \<open>JSON.parse\<close> belongs to the environment: \<open>parse s\<close> is its value, \<open>None\<close> when it throws.
  \<^verbatim>\<open>str.replace("\ufeff", "")\<close> takes out the first occurrence of the code unit.
\<close>

definition BOM :: code_unit where
  "BOM = 0xFEFF"

definition BrokenBMSJSONParse :: "(jsstring \<Rightarrow> jsval option) \<Rightarrow> jsstring \<Rightarrow> jsval option" where
  "BrokenBMSJSONParse parse str =
     (let cleanStr = (if strip_prefix [BOM] str \<noteq> None then remove1 BOM str else str)
      in parse cleanStr)"

section \<open>Loading a table\<close>

text \<open>
  The environment of a load: the network, \<open>JSON.parse\<close>, and \<open>new URL(rel, base).href\<close>
  (\<open>None\<close> when the constructor throws; its first argument is any value).
\<close>

record env =
  fetch :: "nat \<Rightarrow> jsstring \<Rightarrow> fetch_outcome"
  JSON_parse :: "jsstring \<Rightarrow> jsval option"
  URL_href :: "jsval \<Rightarrow> jsstring \<Rightarrow> jsstring option"

text \<open>
  \<open>LoadBMSTable\<close> up to the header schema: the location of the header, the decoded header
  and the number of requests made.
\<close>

definition load_header :: "env \<Rightarrow> jsstring \<Rightarrow> error + (jsstring \<times> jsval \<times> nat)" where
  "load_header e url =
     (case FetchWithRetry (fetch e) url 0 of
        (Inl err, n1) \<Rightarrow> Inl err
      | (Inr firstRes, n1) \<Rightarrow>
        (case text_of firstRes of
           None \<Rightarrow> Inl TextRejected
         | Some resText \<Rightarrow>
           (case IsHTMLOrJSON firstRes resText of
              JSON \<Rightarrow>
                (case BrokenBMSJSONParse (JSON_parse e) resText of
                   None \<Rightarrow> Inl SyntaxError
                 | Some headerJSON \<Rightarrow> Inr (url, headerJSON, n1))
            | HTML \<Rightarrow>
                (case ReadMetaTag resText of
                   None \<Rightarrow> Inl (NoBmstableTag url)
                 | Some bmstable \<Rightarrow>
                     if bmstable = [] then Inl (NoBmstableTag url)
                     else
                       (case URL_href e (String bmstable) url of
                          None \<Rightarrow> Inl InvalidURL
                        | Some headerLocation \<Rightarrow>
                          (case FetchWithRetry (fetch e) headerLocation n1 of
                             (Inl err, n2) \<Rightarrow> Inl err
                           | (Inr headerJSONRes, n2) \<Rightarrow>
                             (case text_of headerJSONRes of
                                None \<Rightarrow> Inl FailedHeaderRead
                              | Some t \<Rightarrow>
                                (case BrokenBMSJSONParse (JSON_parse e) t of
                                   None \<Rightarrow> Inl FailedHeaderRead
                                 | Some headerJSON \<Rightarrow>
                                     Inr (headerLocation, headerJSON, n2)))))))))"

definition LoadBMSTable :: "env \<Rightarrow> jsstring \<Rightarrow> error + BMSTable" where
  "LoadBMSTable e url =
     (case load_header e url of
        Inl err \<Rightarrow> Inl err
      | Inr (headerLocation, headerJSON, n) \<Rightarrow>
          if \<not> HEAD_SCHEMA headerJSON then Inl InvalidHead
          else
            (case URL_href e (property headerJSON (js ''data_url'')) headerLocation of
               None \<Rightarrow> Inl InvalidURL
             | Some bodyLocation \<Rightarrow>
               (case FetchWithRetry (fetch e) bodyLocation n of
                  (Inl err, n') \<Rightarrow> Inl err
                | (Inr bodyRes, n') \<Rightarrow>
                  (case text_of bodyRes of
                     None \<Rightarrow> Inl FailedBodyRead
                   | Some t \<Rightarrow>
                     (case BrokenBMSJSONParse (JSON_parse e) t of
                        None \<Rightarrow> Inl FailedBodyRead
                      | Some rawBodyJSON \<Rightarrow>
                        (case ExtractBMSBody rawBodyJSON of
                           Inl err \<Rightarrow> Inl err
                         | Inr bodyJSON \<Rightarrow>
                             Inr \<lparr>head = headerJSON, body = bodyJSON\<rparr>))))))"

section \<open>What the specification speaks of\<close>

text \<open>
  The declared type of \<open>head.levels\<close> and \<open>head.level_order\<close> in \<open>BMSTableHead\<close>
  (\<open>levels?: Array<number | string>\<close>): the property is absent or an array.
\<close>

definition declared_levels :: "jsval \<Rightarrow> bool" where
  "declared_levels v = (v = Undefined \<or> isArray v)"

definition level_of :: "jsval \<Rightarrow> jsval" where
  "level_of chart = property chart (js ''level'')"

text \<open>
  A table as \<open>BMSTable\<close> declares it and as \<open>LoadBMSTable\<close> builds it: the head is an
  object whose \<open>levels\<close> and \<open>level_order\<close> are as declared, and every chart of the body is
  an object whose level is a number or a string.
\<close>

definition chart_typed :: "jsval \<Rightarrow> bool" where
  "chart_typed chart =
     (z_is_object chart \<and> (typeof (level_of chart) = TNumber \<or> typeof (level_of chart) = TString))"

definition table_typed :: "BMSTable \<Rightarrow> bool" where
  "table_typed t =
     (z_is_object (head t)
      \<and> declared_levels (property (head t) (js ''levels''))
      \<and> declared_levels (property (head t) (js ''level_order''))
      \<and> list_all chart_typed (body t))"

text \<open>
  The distinct elements of a list in the order of their first occurrence: what the
  specification calls first-seen order.
\<close>

function first_seen :: "'a list \<Rightarrow> 'a list" where
  "first_seen [] = []"
| "first_seen (x # xs) = x # first_seen (removeAll x xs)"
  by pat_completeness auto
termination
  by (relation "measure length") (auto simp: less_Suc_eq_le length_removeAll_less_eq)

text \<open>Tables for the concrete cases below.\<close>

definition table_levels :: BMSTable where
  "table_levels =
     \<lparr>head = Object [(js ''name'', String (js ''t'')),
                     (js ''levels'', Array [Number (Finite 2), String (js ''x'')]),
                     (js ''level_order'', Array [String (js ''a'')])],
      body = [Object [(js ''level'', String (js ''b''))]]\<rparr>"

definition table_level_order :: BMSTable where
  "table_level_order =
     \<lparr>head = Object [(js ''name'', String (js ''t'')),
                     (js ''level_order'', Array [String (js ''a'')])],
      body = [Object [(js ''level'', String (js ''b''))]]\<rparr>"

definition table_sniffed :: BMSTable where
  "table_sniffed =
     \<lparr>head = Object [(js ''name'', String (js ''t''))],
      body = [Object [(js ''level'', Number (Finite 1))],
              Object [(js ''level'', String (js ''1''))],
              Object [(js ''level'', Number (Finite 1))],
              Object [(js ''level'', String (js ''0''))]]\<rparr>"

definition table_empty_levels :: BMSTable where
  "table_empty_levels =
     \<lparr>head = Object [(js ''name'', String (js ''t'')),
                     (js ''levels'', Array []),
                     (js ''level_order'', Array [String (js ''a'')])],
      body = [Object [(js ''level'', String (js ''b''))]]\<rparr>"

text \<open>An entry reaches the \<open>push\<close> of \<open>ExtractBMSBody\<close>.\<close>

definition kept :: "jsval \<Rightarrow> bool" where
  "kept entry = (check_entry entry \<noteq> Skip)"

text \<open>A string of exactly \<open>n\<close> code units, whatever they are: the test the code makes.\<close>

fun string_of_length :: "nat \<Rightarrow> jsval \<Rightarrow> bool" where
  "string_of_length n (String s) = (length s = n)"
| "string_of_length n v = False"

text \<open>
  A string of exactly \<open>n\<close> hexadecimal characters: the test the specification describes
  for \<open>md5\<close> (32) and \<open>sha256\<close> (64).
\<close>

definition is_hex_digit :: "code_unit \<Rightarrow> bool" where
  "is_hex_digit c =
     ((of_char CHR ''0'' \<le> c \<and> c \<le> of_char CHR ''9'')
      \<or> (of_char CHR ''a'' \<le> c \<and> c \<le> of_char CHR ''f'')
      \<or> (of_char CHR ''A'' \<le> c \<and> c \<le> of_char CHR ''F''))"

fun spec_hex_string :: "nat \<Rightarrow> jsval \<Rightarrow> bool" where
  "spec_hex_string n (String s) = (length s = n \<and> list_all is_hex_digit s)"
| "spec_hex_string n v = False"



text \<open>
  The header the specification describes: \<open>name\<close> and \<open>symbol\<close> strings, the data location
  a string under either spelling, \<open>levels\<close> and \<open>level_order\<close>, when present, sequences of
  numbers and strings.
\<close>

definition spec_number_or_string :: "jsval \<Rightarrow> bool" where
  "spec_number_or_string v = (typeof v = TNumber \<or> typeof v = TString)"

definition spec_levels_ok :: "jsval \<Rightarrow> bool" where
  "spec_levels_ok v =
     (v = Undefined \<or> (case v of Array xs \<Rightarrow> list_all spec_number_or_string xs | _ \<Rightarrow> False))"

definition spec_header_ok :: "jsval \<Rightarrow> bool" where
  "spec_header_ok v =
     (z_is_object v
      \<and> typeof (property v (js ''name'')) = TString
      \<and> typeof (property v (js ''symbol'')) = TString
      \<and> (typeof (property v (js ''dataLocation'')) = TString
          \<or> typeof (property v (js ''data_url'')) = TString)
      \<and> spec_levels_ok (property v (js ''levels''))
      \<and> spec_levels_ok (property v (js ''level_order'')))"

text \<open>
  What the header schema asks of \<open>levels\<close> and of \<open>level_order\<close>, written out: absent, or
  an array of numbers (not \<open>NaN\<close>) and strings.
\<close>

definition levels_field_ok :: "jsval \<Rightarrow> bool" where
  "levels_field_ok v =
     (v = Undefined \<or>
      (\<exists>xs. v = Array xs \<and>
         list_all (\<lambda>x. (\<exists>n. x = Number n \<and> n \<noteq> NaN) \<or> (\<exists>s. x = String s)) xs))"

text \<open>
  The shape of a text that the expression of \<open>ReadMetaTag\<close> matches from its first
  character, with \<open>v\<close> as the group: \<^verbatim>\<open><meta\<close>, one or more spaces, \<^verbatim>\<open>name="bmstable"\<close>, then
  on the same line any text \<open>mid\<close> without \<^verbatim>\<open>="\<close>, then \<^verbatim>\<open>="\<close>, the value \<open>v\<close> without a quote,
  and a quote.
\<close>

definition quote :: code_unit where
  "quote = of_char CHR 0x22"

definition attr_open :: jsstring where
  "attr_open = [of_char CHR ''='', of_char CHR 0x22]"

definition same_line :: "jsstring \<Rightarrow> bool" where
  "same_line s = list_all (\<lambda>c. \<not> is_line_terminator c) s"

definition tag_with_value :: "jsstring \<Rightarrow> jsstring \<Rightarrow> bool" where
  "tag_with_value tag v =
     (\<exists>ws mid rest.
        tag = js ''<meta'' @ ws @ bmstable_marker @ mid @ attr_open @ v @ quote # rest
        \<and> ws \<noteq> [] \<and> list_all is_space ws
        \<and> same_line mid \<and> \<not> str_includes mid attr_open
        \<and> same_line v \<and> quote \<notin> set v)"

text \<open>
  The pointer the specification describes: the first quoted value that follows the first
  \<^verbatim>\<open>name="bmstable"\<close> of the text.
\<close>

fun after_first :: "jsstring \<Rightarrow> jsstring \<Rightarrow> jsstring option" where
  "after_first p [] = strip_prefix p []"
| "after_first p (c # cs) =
     (case strip_prefix p (c # cs) of
        Some rest \<Rightarrow> Some rest
      | None \<Rightarrow> after_first p cs)"

definition spec_first_quoted_value :: "jsstring \<Rightarrow> jsstring option" where
  "spec_first_quoted_value html =
     (case after_first bmstable_marker html of
        None \<Rightarrow> None
      | Some rest \<Rightarrow>
        (case after_first attr_open rest of
           None \<Rightarrow> None
         | Some val \<Rightarrow>
             if quote \<in> set val then Some (takeWhile (\<lambda>c. c \<noteq> quote) val) else None))"

text \<open>Entries, documents and environments for the concrete cases below.\<close>

definition VALID_MD5 :: jsstring where
  "VALID_MD5 = js ''d0f497c0f955e7edfb0278f446cdb6f8''"

definition VALID_SHA256 :: jsstring where
  "VALID_SHA256 = js ''769359ebb55d3d6dff3b5c6a07ec03be9b87beda1ffb0c07d7ea99590605a732''"

definition entry_not_hex :: jsval where
  "entry_not_hex =
     Object [(js ''level'', String (js ''1'')),
             (js ''md5'', String (js ''zzzzzzzzzzzzzzzzzzzzzzzzzzzzzzzz''))]"

definition entry_both :: jsval where
  "entry_both =
     Object [(js ''level'', Number (Finite 1)),
             (js ''md5'', String VALID_MD5),
             (js ''sha256'', String VALID_SHA256)]"

definition entry_sentinel :: jsval where
  "entry_sentinel =
     Object [(js ''level'', String (js ''1'')),
             (js ''md5'', String (js ''null'')),
             (js ''sha256'', String VALID_SHA256)]"

definition entry_md5 :: jsval where
  "entry_md5 =
     Object [(js ''title'', String (js ''song'')),
             (js ''level'', String (js ''1'')),
             (js ''md5'', String VALID_MD5)]"

definition body_noise :: jsval where
  "body_noise =
     Array [Object [(js ''level'', Number (Finite 1))],
            String (js ''not-an-object''),
            Null,
            Object [(js ''level'', String (js ''2'')), (js ''md5'', String (js ''short''))]]"

definition page :: "jsstring option \<Rightarrow> jsstring \<Rightarrow> response" where
  "page ct txt = \<lparr>status = 200, content_type = ct, text_of = Some txt\<rparr>"

definition site :: "(jsstring \<times> response) list \<Rightarrow> nat \<Rightarrow> jsstring \<Rightarrow> fetch_outcome" where
  "site pages n url = (case map_of pages url of None \<Rightarrow> Rejected | Some res \<Rightarrow> Responded res)"

definition absolute_href :: "jsval \<Rightarrow> jsstring \<Rightarrow> jsstring option" where
  "absolute_href v base = (case v of String s \<Rightarrow> Some s | _ \<Rightarrow> None)"

definition down :: "nat \<Rightarrow> jsstring \<Rightarrow> fetch_outcome" where
  "down n url = Responded \<lparr>status = 500, content_type = None, text_of = None\<rparr>"

definition flaky :: "nat \<Rightarrow> jsstring \<Rightarrow> fetch_outcome" where
  "flaky n url =
     (if n < 2 then Responded \<lparr>status = 403, content_type = None, text_of = None\<rparr>
      else Responded (page None (js ''ok'')))"

definition html_example :: jsstring where
  "html_example =
     js ''<html><meta  name='' @ [quote] @ js ''bmstable'' @ [quote] @ js '' value=''
       @ [quote] @ js ''head.json'' @ [quote] @ js ''></html>''"

definition html_two_lines :: jsstring where
  "html_two_lines =
     js ''<meta name='' @ [quote] @ js ''bmstable'' @ [quote] @ [0x000A] @ js '' content=''
       @ [quote] @ js ''head.json'' @ [quote] @ js ''>''"

definition header_example :: jsval where
  "header_example =
     Object [(js ''name'', String (js ''t'')), (js ''symbol'', String (js ''s'')),
             (js ''data_url'', String (js ''body.json'')),
             (js ''tag'', Array [Bool True, Null])]"

definition header_dataLocation :: jsval where
  "header_dataLocation =
     Object [(js ''name'', String (js ''t'')), (js ''symbol'', String (js ''s'')),
             (js ''dataLocation'', String (js ''body.json''))]"

definition env_example :: env where
  "env_example =
     \<lparr>fetch = site [(js ''table.html'', page None html_example),
                    (js ''head.json'', page (Some (js ''application/json'')) (BOM # js ''H'')),
                    (js ''body.json'', page None (js ''B''))],
      JSON_parse = map_of [(js ''H'', header_example),
                           (js ''B'', Array [entry_md5, Null, entry_md5, entry_sentinel])],
      URL_href = absolute_href\<rparr>"

definition env_bad_header :: env where
  "env_bad_header =
     \<lparr>fetch = site [(js ''head.json'', page (Some (js ''application/json'')) (js ''H''))],
      JSON_parse = map_of [(js ''H'', header_dataLocation)],
      URL_href = absolute_href\<rparr>"

definition body_toString :: jsval where
  "body_toString = Object [(js ''toString'', Number (Finite 1))]"

definition body_mixed :: jsval where
  "body_mixed =
     Array [Null, entry_md5, String (js ''x''), Array [entry_md5],
            Object [(js ''level'', Null), (js ''md5'', String VALID_MD5)],
            entry_sentinel, Object [(js ''level'', Number (Finite 1))], entry_md5]"

definition env_toString :: env where
  "env_toString =
     \<lparr>fetch = site [(js ''head.json'', page (Some (js ''application/json'')) (js ''H'')),
                    (js ''body.json'', page None (js ''B''))],
      JSON_parse = map_of [(js ''H'', header_example), (js ''B'', body_toString)],
      URL_href = absolute_href\<rparr>"

definition env_no_tag :: env where
  "env_no_tag =
     \<lparr>fetch = site [(js ''table.html'', page None html_two_lines)],
      JSON_parse = map_of [],
      URL_href = absolute_href\<rparr>"

section \<open>The level order\<close>

lemma removeAll_filter: "removeAll x (filter P xs) = filter (\<lambda>y. P y \<and> y \<noteq> x) xs"
  by (induction xs) auto

text \<open>The loop appends to \<open>levels\<close> the levels not yet in it, each at its first occurrence.\<close>

lemma sniff_levels_acc:
  "sniff_levels charts levels =
     levels @ first_seen (filter (\<lambda>l. l \<notin> set levels) (map level_of charts))"
proof (induction charts arbitrary: levels)
  case Nil
  show ?case by simp
next
  case (Cons chart charts)
  show ?case
  proof (cases "level_of chart \<in> set levels")
    case True
    then show ?thesis using Cons.IH [of levels] by (simp add: level_of_def)
  next
    case False
    have "(\<lambda>l. l \<notin> set (levels @ [level_of chart]))
            = (\<lambda>y. y \<notin> set levels \<and> y \<noteq> level_of chart)"
      by auto
    then show ?thesis
      using False Cons.IH [of "levels @ [level_of chart]"]
      by (simp add: level_of_def removeAll_filter)
  qed
qed

lemma set_first_seen: "set (first_seen xs) = set xs"
  by (induction xs rule: first_seen.induct) auto

lemma distinct_first_seen: "distinct (first_seen xs)"
  by (induction xs rule: first_seen.induct) (auto simp: set_first_seen)

lemma truthy_declared: "declared_levels v \<Longrightarrow> truthy v = (v \<noteq> Undefined)"
  by (cases v) (auto simp: declared_levels_def)

text \<open>
  C4. For every table of the declared type (see \<open>table_typed\<close>; every table that
  \<open>LoadBMSTable\<close> returns is one), \<open>getLevelOrder\<close> returns \<open>head.levels\<close> itself when it is
  present, whatever the body holds; otherwise \<open>head.level_order\<close> itself when it is
  present; otherwise the distinct levels of the body in the order of their first
  occurrence. Levels are compared with their type: a number and a string are never the
  same level, so both stay.
\<close>

theorem getLevelOrder_resolution:
  assumes "table_typed t"
  shows "(property (head t) (js ''levels'') \<noteq> Undefined \<longrightarrow>
            getLevelOrder t = property (head t) (js ''levels''))
       \<and> (property (head t) (js ''levels'') = Undefined
            \<and> property (head t) (js ''level_order'') \<noteq> Undefined \<longrightarrow>
            getLevelOrder t = property (head t) (js ''level_order''))
       \<and> (property (head t) (js ''levels'') = Undefined
            \<and> property (head t) (js ''level_order'') = Undefined \<longrightarrow>
            getLevelOrder t = Array (first_seen (map level_of (body t)))
            \<and> distinct (first_seen (map level_of (body t)))
            \<and> set (first_seen (map level_of (body t))) = level_of ` set (body t))
       \<and> first_seen [Number n, String s, Number n] = [Number n, String s]"
  using assms
  by (simp add: table_typed_def getLevelOrder_def truthy_declared sniff_levels_acc
      distinct_first_seen set_first_seen)

theorem getLevelOrder_resolution_witness:
  "table_typed table_levels \<and> table_typed table_level_order \<and> table_typed table_sniffed
   \<and> getLevelOrder table_levels = Array [Number (Finite 2), String (js ''x'')]
   \<and> getLevelOrder table_level_order = Array [String (js ''a'')]
   \<and> getLevelOrder table_sniffed
       = Array [Number (Finite 1), String (js ''1''), String (js ''0'')]"
proof -
  have a: "table_typed table_levels"
    by (simp add: table_typed_def chart_typed_def level_of_def table_levels_def
        declared_levels_def js_def)
  have b: "table_typed table_level_order"
    by (simp add: table_typed_def chart_typed_def level_of_def table_level_order_def
        declared_levels_def js_def)
  have c: "table_typed table_sniffed"
    by (simp add: table_typed_def chart_typed_def level_of_def table_sniffed_def
        declared_levels_def js_def)
  have "getLevelOrder table_levels = property (head table_levels) (js ''levels'')"
    using getLevelOrder_resolution [OF a] by (simp add: table_levels_def js_def)
  moreover have "getLevelOrder table_level_order
      = property (head table_level_order) (js ''level_order'')"
    using getLevelOrder_resolution [OF b] by (simp add: table_level_order_def js_def)
  moreover have "getLevelOrder table_sniffed
      = Array (first_seen (map level_of (body table_sniffed)))"
    using getLevelOrder_resolution [OF c] by (simp add: table_sniffed_def js_def)
  ultimately show ?thesis
    using a b c
    by (simp add: table_levels_def table_level_order_def table_sniffed_def level_of_def
        js_def)
qed

text \<open>
  C10. For every table whose head has \<open>levels\<close> bound to the empty array, \<open>getLevelOrder\<close>
  returns that empty array: the test \<open>if (this.head.levels)\<close> asks whether the property is
  truthy, and an empty array is, so neither \<open>level_order\<close> nor the body is looked at.
\<close>

theorem getLevelOrder_empty_levels:
  "property (head t) (js ''levels'') = Array [] \<Longrightarrow> getLevelOrder t = Array []"
  by (simp add: getLevelOrder_def)

theorem getLevelOrder_empty_levels_witness:
  "property (head table_empty_levels) (js ''levels'') = Array []
   \<and> property (head table_empty_levels) (js ''level_order'') = Array [String (js ''a'')]
   \<and> body table_empty_levels \<noteq> []
   \<and> getLevelOrder table_empty_levels = Array []"
proof -
  have h: "property (head table_empty_levels) (js ''levels'') = Array []"
    by (simp add: table_empty_levels_def js_def)
  show ?thesis
    using h getLevelOrder_empty_levels [OF h] by (simp add: table_empty_levels_def js_def)
qed

section \<open>The body normalizer\<close>

lemma ExtractBMSBody_loop_filter:
  "ExtractBMSBody_loop entries acc = acc @ filter kept entries"
  by (induction entries arbitrary: acc) (simp_all add: kept_def)

lemma ExtractBMSBody_Array: "ExtractBMSBody (Array entries) = Inr (filter kept entries)"
  by (simp add: ExtractBMSBody_def ExtractBMSBody_loop_filter)

lemma ExtractBMSBody_Inr:
  "ExtractBMSBody raw = Inr out \<Longrightarrow> \<exists>decoded. raw = Array decoded \<and> out = filter kept decoded"
  by (cases raw) (auto simp: ExtractBMSBody_def ExtractBMSBody_loop_filter split: if_splits)

lemma ExtractBMSBody_not_Array:
  "\<not> isArray rawData \<Longrightarrow>
   ExtractBMSBody rawData =
     (if own_toString rawData then Inl TypeError else Inl (InvalidBody (typeof rawData)))"
  by (cases rawData) (simp_all add: ExtractBMSBody_def)

lemma not_string_of_length_iff: "not_string_of_length v n = (\<not> string_of_length n v)"
  by (cases v) simp_all

lemma LEN_MD5_HEX_HASH_32 [simp]: "LEN_MD5_HEX_HASH = 32"
  by (simp add: LEN_MD5_HEX_HASH_def js_def)

lemma LEN_SHA256_HEX_HASH_64 [simp]: "LEN_SHA256_HEX_HASH = 64"
  by (simp add: LEN_SHA256_HEX_HASH_def js_def)

text \<open>What makes the loop skip an element, condition by condition.\<close>

lemma check_entry_Skip_iff:
  "(check_entry entry = Skip) =
     (entry = Null \<or> typeof entry \<noteq> TObject \<or> isArray entry
      \<or> (typeof (level_of entry) \<noteq> TNumber \<and> typeof (level_of entry) \<noteq> TString)
      \<or> (\<not> string_of_length 32 (property entry (js ''md5''))
          \<and> \<not> string_of_length 64 (property entry (js ''sha256''))))"
  by (auto simp: check_entry_def level_of_def not_string_of_length_iff)

lemma kept_object:
  "kept x \<Longrightarrow> z_is_object x \<and> (typeof (level_of x) = TNumber \<or> typeof (level_of x) = TString)"
  by (cases x) (auto simp: kept_def check_entry_def level_of_def split: if_splits)


text \<open>
  C6. \<open>ExtractBMSBody\<close> raises exactly when the decoded value is not an array. The error it
  then sets out to raise carries \<open>typeof\<close> of the value, but its message also prints the
  value, and for an object with an own property \<open>toString\<close> that conversion throws a
  \<open>TypeError\<close> first: for the body \<^verbatim>\<open>{"toString": 1}\<close> the error that names the type is never
  raised. On an array it always returns: the result is the array without the skipped
  elements, in its order, and an element is skipped exactly when it is \<open>null\<close>, not an
  object, an array, has a level that is neither a number nor a string, or has neither a
  usable \<open>md5\<close> nor a usable \<open>sha256\<close>; an array of skipped elements only gives the empty
  body and no error.
\<close>

theorem ExtractBMSBody_errors:
  "((\<exists>err. ExtractBMSBody rawData = Inl err) = (\<not> isArray rawData))
   \<and> (\<not> isArray rawData \<longrightarrow>
        ExtractBMSBody rawData =
          (if own_toString rawData then Inl TypeError
           else Inl (InvalidBody (typeof rawData))))
   \<and> ExtractBMSBody (Array entries) = Inr (filter (\<lambda>x. check_entry x \<noteq> Skip) entries)
   \<and> (check_entry entry = Skip) =
       (entry = Null \<or> typeof entry \<noteq> TObject \<or> isArray entry
        \<or> (typeof (level_of entry) \<noteq> TNumber \<and> typeof (level_of entry) \<noteq> TString)
        \<or> (\<not> string_of_length 32 (property entry (js ''md5''))
            \<and> \<not> string_of_length 64 (property entry (js ''sha256''))))
   \<and> ((\<forall>x \<in> set entries. check_entry x = Skip) \<longrightarrow> ExtractBMSBody (Array entries) = Inr [])
   \<and> \<not> isArray body_toString \<and> typeof body_toString = TObject
   \<and> ExtractBMSBody body_toString = Inl TypeError"
proof -
  have a: "(\<exists>err. ExtractBMSBody rawData = Inl err) = (\<not> isArray rawData)"
    by (cases rawData) (simp_all add: ExtractBMSBody_def)
  have b: "\<not> isArray rawData \<longrightarrow>
        ExtractBMSBody rawData =
          (if own_toString rawData then Inl TypeError
           else Inl (InvalidBody (typeof rawData)))"
    using ExtractBMSBody_not_Array by blast
  have k: "kept = (\<lambda>x. check_entry x \<noteq> Skip)"
    by (rule ext) (simp add: kept_def)
  have c: "ExtractBMSBody (Array entries) = Inr (filter (\<lambda>x. check_entry x \<noteq> Skip) entries)"
    using ExtractBMSBody_Array [of entries] unfolding k .
  have e: "(\<forall>x \<in> set entries. check_entry x = Skip) \<longrightarrow> ExtractBMSBody (Array entries) = Inr []"
    by (simp add: c)
  have f: "\<not> isArray body_toString \<and> typeof body_toString = TObject
      \<and> ExtractBMSBody body_toString = Inl TypeError"
    by (simp add: body_toString_def ExtractBMSBody_def js_def)
  show ?thesis
    using a b c e f check_entry_Skip_iff [of entry] by blast
qed

text \<open>
  C1, as the code has it. For every element of the body that is an object (not \<open>null\<close>,
  not an array) whose level is a number or a string: it is kept on the md5 branch exactly
  when its \<open>md5\<close> is a string of exactly 32 code units, whatever the characters; when
  \<open>md5\<close> fails that test, it is kept on the sha256 branch exactly when its \<open>sha256\<close> is a
  string of exactly 64 code units; when both fail it is dropped. The order is fixed: an
  element that passes both tests is on the md5 branch. An element of the array is in the
  result exactly when it is kept.
\<close>

theorem identity_by_length:
  assumes "entry = Object kvs"
    and "typeof (property entry (js ''level'')) = TNumber
         \<or> typeof (property entry (js ''level'')) = TString"
  shows "(check_entry entry = KeepMD5) = string_of_length 32 (property entry (js ''md5''))
     \<and> (\<not> string_of_length 32 (property entry (js ''md5'')) \<longrightarrow>
          (check_entry entry = KeepSHA256)
            = string_of_length 64 (property entry (js ''sha256'')))
     \<and> (\<not> string_of_length 32 (property entry (js ''md5''))
          \<and> \<not> string_of_length 64 (property entry (js ''sha256'')) \<longrightarrow>
          check_entry entry = Skip)
     \<and> (string_of_length 32 (property entry (js ''md5''))
          \<and> string_of_length 64 (property entry (js ''sha256'')) \<longrightarrow>
          check_entry entry = KeepMD5)
     \<and> (\<exists>out. ExtractBMSBody (Array entries) = Inr out
          \<and> (entry \<in> set out) = (entry \<in> set entries \<and> check_entry entry \<noteq> Skip))"
proof -
  have "\<exists>out. ExtractBMSBody (Array entries) = Inr out
          \<and> (entry \<in> set out) = (entry \<in> set entries \<and> check_entry entry \<noteq> Skip)"
    by (auto simp: ExtractBMSBody_Array kept_def)
  then show ?thesis
    using assms by (auto simp: check_entry_def not_string_of_length_iff)
qed

theorem identity_by_length_witness:
  "check_entry entry_both = KeepMD5
   \<and> check_entry entry_sentinel = KeepSHA256
   \<and> check_entry entry_not_hex = KeepMD5
   \<and> ExtractBMSBody (Array [entry_both, entry_sentinel])
       = Inr [entry_both, entry_sentinel]"
proof -
  have b: "entry_both = Object [(js ''level'', Number (Finite 1)),
             (js ''md5'', String VALID_MD5), (js ''sha256'', String VALID_SHA256)]"
    "typeof (property entry_both (js ''level'')) = TNumber
     \<or> typeof (property entry_both (js ''level'')) = TString"
    "string_of_length 32 (property entry_both (js ''md5''))"
    by (simp_all add: entry_both_def VALID_MD5_def js_def)
  have s: "entry_sentinel = Object [(js ''level'', String (js ''1'')),
             (js ''md5'', String (js ''null'')), (js ''sha256'', String VALID_SHA256)]"
    "typeof (property entry_sentinel (js ''level'')) = TNumber
     \<or> typeof (property entry_sentinel (js ''level'')) = TString"
    "\<not> string_of_length 32 (property entry_sentinel (js ''md5''))"
    "string_of_length 64 (property entry_sentinel (js ''sha256''))"
    by (simp_all add: entry_sentinel_def VALID_SHA256_def js_def)
  have z: "entry_not_hex = Object [(js ''level'', String (js ''1'')),
             (js ''md5'', String (js ''zzzzzzzzzzzzzzzzzzzzzzzzzzzzzzzz''))]"
    "typeof (property entry_not_hex (js ''level'')) = TNumber
     \<or> typeof (property entry_not_hex (js ''level'')) = TString"
    "string_of_length 32 (property entry_not_hex (js ''md5''))"
    by (simp_all add: entry_not_hex_def js_def)
  have 1: "check_entry entry_both = KeepMD5"
    using identity_by_length [OF b(1,2)] b(3) by blast
  have 2: "check_entry entry_sentinel = KeepSHA256"
    using identity_by_length [OF s(1,2)] s(3,4) by blast
  have 3: "check_entry entry_not_hex = KeepMD5"
    using identity_by_length [OF z(1,2)] z(3) by blast
  show ?thesis using 1 2 3 by (simp add: ExtractBMSBody_def)
qed

theorem identity_not_hex_counterexample:
  "typeof entry_not_hex = TObject \<and> \<not> isArray entry_not_hex
   \<and> typeof (property entry_not_hex (js ''level'')) = TString
   \<and> \<not> spec_hex_string 32 (property entry_not_hex (js ''md5''))
   \<and> \<not> spec_hex_string 64 (property entry_not_hex (js ''sha256''))
   \<and> check_entry entry_not_hex = KeepMD5
   \<and> ExtractBMSBody (Array [entry_not_hex]) = Inr [entry_not_hex]"
  by (simp add: entry_not_hex_def check_entry_def ExtractBMSBody_def js_def is_hex_digit_def)

text \<open>The steps of a load that returns, from the header to the body.\<close>

lemma LoadBMSTable_Inr:
  assumes "LoadBMSTable e url = Inr t"
  shows "\<exists>headerLocation n bodyLocation bodyRes n' bodyText decoded.
           load_header e url = Inr (headerLocation, head t, n)
         \<and> HEAD_SCHEMA (head t)
         \<and> URL_href e (property (head t) (js ''data_url'')) headerLocation = Some bodyLocation
         \<and> FetchWithRetry (fetch e) bodyLocation n = (Inr bodyRes, n')
         \<and> text_of bodyRes = Some bodyText
         \<and> BrokenBMSJSONParse (JSON_parse e) bodyText = Some (Array decoded)
         \<and> body t = filter kept decoded"
proof -
  obtain headerLocation headerJSON n where
    h: "load_header e url = Inr (headerLocation, headerJSON, n)"
    using assms by (auto simp: LoadBMSTable_def split: sum.splits)
  have v: "HEAD_SCHEMA headerJSON"
    using assms h by (auto simp: LoadBMSTable_def split: if_splits)
  obtain bodyLocation where
    u: "URL_href e (property headerJSON (js ''data_url'')) headerLocation = Some bodyLocation"
    using assms h v by (auto simp: LoadBMSTable_def split: option.splits)
  obtain bodyRes n' where
    f: "FetchWithRetry (fetch e) bodyLocation n = (Inr bodyRes, n')"
    using assms h v u by (auto simp: LoadBMSTable_def split: prod.splits sum.splits)
  obtain bodyText where x: "text_of bodyRes = Some bodyText"
    using assms h v u f by (auto simp: LoadBMSTable_def split: option.splits)
  obtain raw where p: "BrokenBMSJSONParse (JSON_parse e) bodyText = Some raw"
    using assms h v u f x by (auto simp: LoadBMSTable_def split: option.splits)
  have r: "ExtractBMSBody raw = Inr (body t) \<and> head t = headerJSON"
    using assms h v u f x p by (auto simp: LoadBMSTable_def split: sum.splits)
  then obtain decoded where d: "raw = Array decoded" "body t = filter kept decoded"
    using ExtractBMSBody_Inr by blast
  show ?thesis
    using h v u f x p r d by blast
qed


section \<open>The retrying fetcher\<close>

declare FetchWithRetry_loop.simps [simp del]

lemma loop_done:
  "\<not> tries < retryCount \<Longrightarrow>
   FetchWithRetry_loop net url retryCount tries lastRes n =
     (case lastRes of None \<Rightarrow> (Inl (ZeroRetries url), n)
      | Some res \<Rightarrow> (Inl (FetchFailed url (status res)), n))"
  by (subst FetchWithRetry_loop.simps) simp

lemma loop_ok:
  "tries < retryCount \<Longrightarrow> net n url = Responded res \<Longrightarrow> status res = 200 \<Longrightarrow>
   FetchWithRetry_loop net url retryCount tries lastRes n = (Inr res, Suc n)"
  by (subst FetchWithRetry_loop.simps) simp

lemma loop_retry:
  "tries < retryCount \<Longrightarrow> net n url = Responded res \<Longrightarrow> status res \<noteq> 200 \<Longrightarrow>
   FetchWithRetry_loop net url retryCount tries lastRes n =
     FetchWithRetry_loop net url retryCount (tries + 1) (Some res) (Suc n)"
  by (subst FetchWithRetry_loop.simps) simp

lemma loop_rejected:
  "tries < retryCount \<Longrightarrow> net n url = Rejected \<Longrightarrow>
   FetchWithRetry_loop net url retryCount tries lastRes n = (Inl FetchRejected, Suc n)"
  by (subst FetchWithRetry_loop.simps) simp

text \<open>The loop makes no more requests than it has tries left.\<close>

lemma loop_requests:
  "n \<le> snd (FetchWithRetry_loop net url retryCount tries lastRes n)
   \<and> int (snd (FetchWithRetry_loop net url retryCount tries lastRes n)) - int n
       \<le> max 0 (retryCount - tries)"
proof (induction net url retryCount tries lastRes n rule: FetchWithRetry_loop.induct)
  case (1 net url retryCount tries lastRes n)
  show ?case
  proof (cases "tries < retryCount")
    case False
    then show ?thesis by (simp add: loop_done split: option.splits)
  next
    case more: True
    show ?thesis
    proof (cases "net n url")
      case Rejected
      then show ?thesis using more by (simp add: loop_rejected)
    next
      case (Responded res)
      show ?thesis
      proof (cases "status res = 200")
        case True
        then show ?thesis using more Responded by (simp add: loop_ok)
      next
        case False
        then show ?thesis
          using more Responded "1.IH" [OF more Responded False] by (simp add: loop_retry)
      qed
    qed
  qed
qed

text \<open>
  C3. For every URL and every network: when an attempt answers with status 200, the
  fetcher returns that response at once, without a further request (shown for the first,
  second and third attempt); it makes at most 3 requests, the first included; when three
  attempts answer with a status other than 200 it fails with the error that carries the
  URL and the status of the last answer; and with a retry count of zero it makes no
  request and fails with the error of zero retries, not the other one.
\<close>

theorem FetchWithRetry_bounded:
  "(net n url = Responded r \<and> status r = 200 \<longrightarrow>
      FetchWithRetry net url n = (Inr r, Suc n))
   \<and> (net n url = Responded r0 \<and> status r0 \<noteq> 200
        \<and> net (Suc n) url = Responded r \<and> status r = 200 \<longrightarrow>
      FetchWithRetry net url n = (Inr r, n + 2))
   \<and> (net n url = Responded r0 \<and> status r0 \<noteq> 200
        \<and> net (Suc n) url = Responded r1 \<and> status r1 \<noteq> 200
        \<and> net (n + 2) url = Responded r \<and> status r = 200 \<longrightarrow>
      FetchWithRetry net url n = (Inr r, n + 3))
   \<and> (net n url = Responded r0 \<and> status r0 \<noteq> 200
        \<and> net (Suc n) url = Responded r1 \<and> status r1 \<noteq> 200
        \<and> net (n + 2) url = Responded r2 \<and> status r2 \<noteq> 200 \<longrightarrow>
      FetchWithRetry net url n = (Inl (FetchFailed url (status r2)), n + 3))
   \<and> n \<le> snd (FetchWithRetry net url n) \<and> snd (FetchWithRetry net url n) \<le> n + 3
   \<and> FetchWithRetry_n net url 0 n = (Inl (ZeroRetries url), n)"
proof -
  have "n \<le> snd (FetchWithRetry net url n)
      \<and> int (snd (FetchWithRetry net url n)) - int n \<le> 3"
    using loop_requests [of n net url 3 0 None]
    by (simp add: FetchWithRetry_def FetchWithRetry_n_def)
  then have "n \<le> snd (FetchWithRetry net url n) \<and> snd (FetchWithRetry net url n) \<le> n + 3"
    by simp
  then show ?thesis
    by (simp add: FetchWithRetry_def FetchWithRetry_n_def loop_ok loop_retry loop_done
        numeral_2_eq_2 numeral_3_eq_3)
qed

theorem FetchWithRetry_bounded_witness:
  "FetchWithRetry down (js ''table.html'') 0 = (Inl (FetchFailed (js ''table.html'') 500), 3)
   \<and> FetchWithRetry flaky (js ''table.html'') 0 = (Inr (page None (js ''ok'')), 3)
   \<and> FetchWithRetry flaky (js ''table.html'') 2 = (Inr (page None (js ''ok'')), 3)
   \<and> FetchWithRetry_n down (js ''table.html'') 0 0 = (Inl (ZeroRetries (js ''table.html'')), 0)"
proof -
  let ?r = "\<lparr>status = 500, content_type = None, text_of = None\<rparr>"
  let ?f = "\<lparr>status = 403, content_type = None, text_of = None\<rparr>"
  let ?u = "js ''table.html''"
  have "FetchWithRetry down ?u 0 = (Inl (FetchFailed ?u (status ?r)), 0 + 3)"
    using FetchWithRetry_bounded [where net = down and n = 0 and url = ?u and ?r0.0 = ?r
        and ?r1.0 = ?r and ?r2.0 = ?r]
    by (simp add: down_def)
  moreover have "FetchWithRetry flaky ?u 0 = (Inr (page None (js ''ok'')), 0 + 3)"
    using FetchWithRetry_bounded [where net = flaky and n = 0 and url = ?u
        and r = "page None (js ''ok'')" and ?r0.0 = ?f and ?r1.0 = ?f]
    by (simp add: flaky_def page_def)
  moreover have "FetchWithRetry flaky ?u 2 = (Inr (page None (js ''ok'')), Suc 2)"
    using FetchWithRetry_bounded [where net = flaky and n = 2 and url = ?u
        and r = "page None (js ''ok'')"]
    by (simp add: flaky_def page_def)
  moreover have "FetchWithRetry_n down ?u 0 0 = (Inl (ZeroRetries ?u), 0)"
    using FetchWithRetry_bounded [where net = down and n = 0 and url = ?u] by simp
  ultimately show ?thesis by simp
qed

section \<open>Loading: the concrete cases\<close>

lemma page_fields [simp]:
  "status (page ct txt) = 200" "content_type (page ct txt) = ct" "text_of (page ct txt) = Some txt"
  by (simp_all add: page_def)

lemma FetchWithRetry_site:
  "map_of pages url = Some res \<Longrightarrow> status res = 200 \<Longrightarrow>
   FetchWithRetry (site pages) url n = (Inr res, Suc n)"
  by (simp add: FetchWithRetry_def FetchWithRetry_n_def loop_ok site_def)

lemma ReadMetaTag_html_example: "ReadMetaTag html_example = Some (js ''head.json'')"
  by (simp add: html_example_def ReadMetaTag_def re_meta_def re_name_def re_attr_here_def
      bmstable_marker_def quote_def js_def is_space_def is_white_space_def
      is_line_terminator_def)

lemma ReadMetaTag_html_two_lines: "ReadMetaTag html_two_lines = None"
  by (simp add: html_two_lines_def ReadMetaTag_def re_meta_def re_name_def re_attr_here_def
      bmstable_marker_def quote_def js_def is_space_def is_white_space_def
      is_line_terminator_def)

lemma kept_examples:
  "kept entry_md5" "kept entry_sentinel" "kept entry_both" "\<not> kept Null"
  by (simp_all add: kept_def check_entry_def entry_md5_def entry_sentinel_def entry_both_def
      VALID_MD5_def VALID_SHA256_def js_def)

lemma HEAD_SCHEMA_header_example: "HEAD_SCHEMA header_example"
  by (simp add: HEAD_SCHEMA_def header_example_def z_optional_def js_def)

lemma load_header_example:
  "load_header env_example (js ''table.html'') = Inr (js ''head.json'', header_example, 2)"
proof -
  have 1: "FetchWithRetry (fetch env_example) (js ''table.html'') 0
      = (Inr (page None html_example), Suc 0)"
    unfolding env_example_def env.simps
    by (rule FetchWithRetry_site) (simp_all add: js_def)
  have 2: "FetchWithRetry (fetch env_example) (js ''head.json'') (Suc 0)
      = (Inr (page (Some (js ''application/json'')) (BOM # js ''H'')), Suc (Suc 0))"
    unfolding env_example_def env.simps
    by (rule FetchWithRetry_site) (simp_all add: js_def)
  have 3: "IsHTMLOrJSON (page None html_example) html_example = HTML"
    by (simp add: IsHTMLOrJSON_def guess_doctype_def html_example_def js_def
        is_space_def is_white_space_def is_line_terminator_def)
  have 4: "BrokenBMSJSONParse (JSON_parse env_example) (BOM # js ''H'') = Some header_example"
    by (simp add: BrokenBMSJSONParse_def env_example_def js_def)
  have 5: "URL_href env_example (String (js ''head.json'')) (js ''table.html'')
      = Some (js ''head.json'')"
    by (simp add: env_example_def absolute_href_def)
  have 6: "js ''head.json'' \<noteq> []" by (simp add: js_def)
  show ?thesis
    unfolding load_header_def
    by (simp add: 1 2 3 4 5 6 ReadMetaTag_html_example numeral_2_eq_2)
qed

lemma LoadBMSTable_example:
  "LoadBMSTable env_example (js ''table.html'')
     = Inr \<lparr>head = header_example, body = [entry_md5, entry_md5, entry_sentinel]\<rparr>"
proof -
  have 1: "FetchWithRetry (fetch env_example) (js ''body.json'') 2
      = (Inr (page None (js ''B'')), Suc 2)"
    unfolding env_example_def env.simps
    by (rule FetchWithRetry_site) (simp_all add: js_def)
  have 2: "BrokenBMSJSONParse (JSON_parse env_example) (js ''B'')
      = Some (Array [entry_md5, Null, entry_md5, entry_sentinel])"
    by (simp add: BrokenBMSJSONParse_def env_example_def js_def BOM_def)
  have 3: "URL_href env_example (property header_example (js ''data_url'')) (js ''head.json'')
      = Some (js ''body.json'')"
    by (simp add: env_example_def absolute_href_def header_example_def js_def)
  show ?thesis
    unfolding LoadBMSTable_def
    by (simp add: load_header_example HEAD_SCHEMA_header_example 1 2 3
        ExtractBMSBody_Array kept_examples)
qed

lemma load_header_bad:
  "load_header env_bad_header (js ''head.json'') = Inr (js ''head.json'', header_dataLocation, 1)"
proof -
  have 1: "FetchWithRetry (fetch env_bad_header) (js ''head.json'') 0
      = (Inr (page (Some (js ''application/json'')) (js ''H'')), Suc 0)"
    unfolding env_bad_header_def env.simps
    by (rule FetchWithRetry_site) (simp_all add: js_def)
  have 2: "IsHTMLOrJSON (page (Some (js ''application/json'')) (js ''H'')) (js ''H'') = JSON"
    by (simp add: IsHTMLOrJSON_def js_def)
  have 3: "BrokenBMSJSONParse (JSON_parse env_bad_header) (js ''H'') = Some header_dataLocation"
    by (simp add: BrokenBMSJSONParse_def env_bad_header_def js_def BOM_def)
  show ?thesis
    unfolding load_header_def by (simp add: 1 2 3)
qed


lemma check_entry_body_mixed:
  "check_entry entry_md5 \<noteq> Skip" "check_entry entry_sentinel \<noteq> Skip"
  "check_entry Null = Skip" "check_entry (String (js ''x'')) = Skip"
  "check_entry (Array [entry_md5]) = Skip"
  "check_entry (Object [(js ''level'', Null), (js ''md5'', String VALID_MD5)]) = Skip"
  "check_entry (Object [(js ''level'', Number (Finite 1))]) = Skip"
  by (simp_all add: check_entry_def entry_md5_def entry_sentinel_def VALID_MD5_def
      VALID_SHA256_def js_def)

lemma LoadBMSTable_toString:
  "LoadBMSTable env_toString (js ''head.json'') = Inl TypeError"
proof -
  have 1: "FetchWithRetry (fetch env_toString) (js ''head.json'') 0
      = (Inr (page (Some (js ''application/json'')) (js ''H'')), Suc 0)"
    unfolding env_toString_def env.simps
    by (rule FetchWithRetry_site) (simp_all add: js_def)
  have 2: "IsHTMLOrJSON (page (Some (js ''application/json'')) (js ''H'')) (js ''H'') = JSON"
    by (simp add: IsHTMLOrJSON_def js_def)
  have 3: "BrokenBMSJSONParse (JSON_parse env_toString) (js ''H'') = Some header_example"
    by (simp add: BrokenBMSJSONParse_def env_toString_def js_def BOM_def)
  have h: "load_header env_toString (js ''head.json'')
      = Inr (js ''head.json'', header_example, Suc 0)"
    unfolding load_header_def by (simp add: 1 2 3)
  have 4: "URL_href env_toString (property header_example (js ''data_url'')) (js ''head.json'')
      = Some (js ''body.json'')"
    by (simp add: env_toString_def absolute_href_def header_example_def js_def)
  have 5: "FetchWithRetry (fetch env_toString) (js ''body.json'') (Suc 0)
      = (Inr (page None (js ''B'')), Suc (Suc 0))"
    unfolding env_toString_def env.simps
    by (rule FetchWithRetry_site) (simp_all add: js_def)
  have 6: "BrokenBMSJSONParse (JSON_parse env_toString) (js ''B'') = Some body_toString"
    by (simp add: BrokenBMSJSONParse_def env_toString_def js_def BOM_def)
  have 7: "ExtractBMSBody body_toString = Inl TypeError"
    by (simp add: body_toString_def ExtractBMSBody_def js_def)
  show ?thesis
    unfolding LoadBMSTable_def
    by (simp add: h HEAD_SCHEMA_header_example 4 5 6 7)
qed

theorem ExtractBMSBody_errors_witness:
  "ExtractBMSBody body_noise = Inr []
   \<and> ExtractBMSBody body_mixed = Inr [entry_md5, entry_sentinel, entry_md5]
   \<and> ExtractBMSBody (Object []) = Inl (InvalidBody TObject)
   \<and> ExtractBMSBody Null = Inl (InvalidBody TObject)
   \<and> ExtractBMSBody (String (js ''[]'')) = Inl (InvalidBody TString)
   \<and> ExtractBMSBody body_toString = Inl TypeError
   \<and> LoadBMSTable env_toString (js ''head.json'') = Inl TypeError"
proof -
  have skip: "\<forall>x \<in> set [Object [(js ''level'', Number (Finite 1))],
                String (js ''not-an-object''), Null,
                Object [(js ''level'', String (js ''2'')), (js ''md5'', String (js ''short''))]].
              check_entry x = Skip"
    by (simp add: check_entry_def js_def)
  have 1: "ExtractBMSBody body_noise = Inr []"
    unfolding body_noise_def using skip ExtractBMSBody_errors by blast
  have "ExtractBMSBody body_mixed
      = Inr (filter (\<lambda>x. check_entry x \<noteq> Skip)
          [Null, entry_md5, String (js ''x''), Array [entry_md5],
            Object [(js ''level'', Null), (js ''md5'', String VALID_MD5)],
            entry_sentinel, Object [(js ''level'', Number (Finite 1))], entry_md5])"
    unfolding body_mixed_def using ExtractBMSBody_errors by blast
  then have 2: "ExtractBMSBody body_mixed = Inr [entry_md5, entry_sentinel, entry_md5]"
    by (simp add: check_entry_body_mixed)
  have 3: "ExtractBMSBody (Object []) = Inl (InvalidBody (typeof (Object [])))"
    "ExtractBMSBody Null = Inl (InvalidBody (typeof Null))"
    "ExtractBMSBody (String (js ''[]'')) = Inl (InvalidBody (typeof (String (js ''[]''))))"
    using ExtractBMSBody_errors [of "Object []"] ExtractBMSBody_errors [of Null]
      ExtractBMSBody_errors [of "String (js ''[]'')"]
    by simp_all
  have 4: "ExtractBMSBody body_toString = Inl TypeError"
    using ExtractBMSBody_errors by blast
  show ?thesis using 1 2 3 4 LoadBMSTable_toString by simp
qed

section \<open>The header\<close>

lemma z_string_iff: "z_string v = (\<exists>s. v = String s)"
  by (cases v) simp_all

lemma z_is_object_iff: "z_is_object v = (\<exists>kvs. v = Object kvs)"
  by (cases v) simp_all

lemma z_number_or_string_iff:
  "z_number_or_string v = ((\<exists>n. v = Number n \<and> n \<noteq> NaN) \<or> (\<exists>s. v = String s))"
  by (cases v) (simp_all add: z_number_or_string_def)

lemma z_optional_levels_iff:
  "z_optional (z_array z_number_or_string) v = levels_field_ok v"
proof -
  have "z_number_or_string = (\<lambda>x. (\<exists>n. x = Number n \<and> n \<noteq> NaN) \<or> (\<exists>s. x = String s))"
    by (rule ext) (simp add: z_number_or_string_iff)
  then show ?thesis
    by (cases v) (simp_all add: z_optional_def levels_field_ok_def)
qed

lemma load_header_decoded:
  "load_header e url = Inr (headerLocation, headerJSON, n) \<Longrightarrow>
   \<exists>headerText. BrokenBMSJSONParse (JSON_parse e) headerText = Some headerJSON"
  unfolding load_header_def
  by (auto split: prod.splits sum.splits option.splits doctype.splits if_splits)

text \<open>
  C5, as the code has it. The header schema accepts a decoded value exactly when it is an
  object (not \<open>null\<close>, not an array) whose \<open>name\<close>, \<open>symbol\<close> and \<open>data_url\<close> are strings,
  and whose \<open>levels\<close> and \<open>level_order\<close>, each when present, are arrays of numbers and
  strings. Only the spelling \<open>data_url\<close> counts: \<open>dataLocation\<close> is one more unknown field.
  When the decoded header is not accepted, \<open>LoadBMSTable\<close> fails with the error of an
  invalid header.
\<close>

theorem HEAD_SCHEMA_accepts:
  "HEAD_SCHEMA v =
     ((\<exists>kvs. v = Object kvs)
      \<and> (\<exists>s. property v (js ''name'') = String s)
      \<and> (\<exists>s. property v (js ''symbol'') = String s)
      \<and> (\<exists>s. property v (js ''data_url'') = String s)
      \<and> levels_field_ok (property v (js ''levels''))
      \<and> levels_field_ok (property v (js ''level_order'')))
   \<and> (load_header e url = Inr (headerLocation, v, n) \<and> \<not> HEAD_SCHEMA v \<longrightarrow>
        LoadBMSTable e url = Inl InvalidHead)"
  by (simp add: HEAD_SCHEMA_def z_string_iff z_is_object_iff z_optional_levels_iff
      LoadBMSTable_def)

theorem HEAD_SCHEMA_accepts_witness:
  "HEAD_SCHEMA header_example
   \<and> \<not> HEAD_SCHEMA header_dataLocation
   \<and> LoadBMSTable env_bad_header (js ''head.json'') = Inl InvalidHead"
proof -
  have ok: "levels_field_ok Undefined" by (simp add: levels_field_ok_def)
  have "HEAD_SCHEMA header_example"
    using HEAD_SCHEMA_accepts [of header_example] ok
    by (simp add: header_example_def js_def)
  moreover have no: "\<not> HEAD_SCHEMA header_dataLocation"
    using HEAD_SCHEMA_accepts [of header_dataLocation]
    by (simp add: header_dataLocation_def js_def)
  moreover have "LoadBMSTable env_bad_header (js ''head.json'') = Inl InvalidHead"
    using HEAD_SCHEMA_accepts [of header_dataLocation env_bad_header "js ''head.json''"
        "js ''head.json''" 1] no load_header_bad
    by blast
  ultimately show ?thesis by simp
qed

theorem header_dataLocation_counterexample:
  "spec_header_ok header_dataLocation
   \<and> \<not> HEAD_SCHEMA header_dataLocation
   \<and> LoadBMSTable env_bad_header (js ''head.json'') = Inl InvalidHead"
  by (simp add: LoadBMSTable_def load_header_bad)
    (simp add: header_dataLocation_def spec_header_ok_def HEAD_SCHEMA_def spec_levels_ok_def
      js_def)

text \<open>
  C7. For every load that returns a table, the head of the table is the decoded header
  itself: the value the decoder returned for the header document and that the schema
  accepted. The schema only reads it, so every field of the header, known or not, is in
  the head as it was decoded.
\<close>

theorem LoadBMSTable_head_intact:
  "LoadBMSTable e url = Inr t \<Longrightarrow>
     \<exists>headerLocation n headerText.
        load_header e url = Inr (headerLocation, head t, n)
      \<and> BrokenBMSJSONParse (JSON_parse e) headerText = Some (head t)
      \<and> HEAD_SCHEMA (head t)"
proof -
  assume ok: "LoadBMSTable e url = Inr t"
  then obtain headerLocation headerJSON n where
    h: "load_header e url = Inr (headerLocation, headerJSON, n)"
    by (auto simp: LoadBMSTable_def split: sum.splits)
  have "HEAD_SCHEMA headerJSON \<and> head t = headerJSON"
    using ok h
    by (auto simp: LoadBMSTable_def split: sum.splits prod.splits if_splits option.splits)
  then show ?thesis using h load_header_decoded [OF h] by blast
qed

theorem LoadBMSTable_head_intact_witness:
  "LoadBMSTable env_example (js ''table.html'')
     = Inr \<lparr>head = header_example, body = [entry_md5, entry_md5, entry_sentinel]\<rparr>
   \<and> property header_example (js ''tag'') = Array [Bool True, Null]
   \<and> (\<exists>headerLocation n headerText.
        load_header env_example (js ''table.html'') = Inr (headerLocation, header_example, n)
      \<and> BrokenBMSJSONParse (JSON_parse env_example) headerText = Some header_example
      \<and> HEAD_SCHEMA header_example)"
proof -
  let ?t = "\<lparr>head = header_example, body = [entry_md5, entry_md5, entry_sentinel]\<rparr>"
  have "\<exists>headerLocation n headerText.
        load_header env_example (js ''table.html'') = Inr (headerLocation, head ?t, n)
      \<and> BrokenBMSJSONParse (JSON_parse env_example) headerText = Some (head ?t)
      \<and> HEAD_SCHEMA (head ?t)"
    using LoadBMSTable_head_intact [OF LoadBMSTable_example] .
  moreover have "property header_example (js ''tag'') = Array [Bool True, Null]"
    by (simp add: header_example_def js_def)
  ultimately show ?thesis by (simp add: LoadBMSTable_example)
qed

text \<open>Every table that \<open>LoadBMSTable\<close> returns is of the declared type.\<close>

lemma HEAD_SCHEMA_declared:
  "HEAD_SCHEMA v \<Longrightarrow>
     z_is_object v \<and> declared_levels (property v (js ''levels''))
     \<and> declared_levels (property v (js ''level_order''))"
proof -
  have "\<And>x. z_optional (z_array z_number_or_string) x \<Longrightarrow> declared_levels x"
    subgoal for x by (cases x) (simp_all add: z_optional_def declared_levels_def)
    done
  then show "HEAD_SCHEMA v \<Longrightarrow>
     z_is_object v \<and> declared_levels (property v (js ''levels''))
     \<and> declared_levels (property v (js ''level_order''))"
    by (simp add: HEAD_SCHEMA_def)
qed

lemma LoadBMSTable_table_typed:
  assumes "LoadBMSTable e url = Inr t"
  shows "table_typed t"
proof -
  obtain decoded where h: "HEAD_SCHEMA (head t)" and b: "body t = filter kept decoded"
    using LoadBMSTable_Inr [OF assms] by blast
  have "list_all chart_typed (body t)"
    using kept_object b by (auto simp: list_all_iff chart_typed_def)
  then show ?thesis
    using HEAD_SCHEMA_declared [OF h] by (simp add: table_typed_def)
qed

section \<open>The lenient decoder\<close>

text \<open>
  C8. For every text and every decoder: the text with one byte-order marker put in front is
  decoded to what \<open>JSON.parse\<close> gives for the text itself; when the text does not begin with
  a marker of its own, that is also what \<open>BrokenBMSJSONParse\<close> gives for the text, so with
  and without the marker the results are identical. Nothing else is repaired: the result
  is that of \<open>JSON.parse\<close> on the text after the strip, and when \<open>JSON.parse\<close> throws on
  it, so does \<open>BrokenBMSJSONParse\<close>.
\<close>

theorem BrokenBMSJSONParse_strips_BOM:
  "BrokenBMSJSONParse parse (BOM # str) = parse str
   \<and> (strip_prefix [BOM] str = None \<longrightarrow>
        BrokenBMSJSONParse parse str = parse str
        \<and> BrokenBMSJSONParse parse (BOM # str) = BrokenBMSJSONParse parse str)
   \<and> (parse str = None \<longrightarrow> BrokenBMSJSONParse parse (BOM # str) = None)"
  by (simp add: BrokenBMSJSONParse_def)

theorem BrokenBMSJSONParse_strips_BOM_witness:
  "BrokenBMSJSONParse (JSON_parse env_example) (BOM # js ''H'') = Some header_example
   \<and> BrokenBMSJSONParse (JSON_parse env_example) (js ''H'') = Some header_example
   \<and> BrokenBMSJSONParse (JSON_parse env_example) (BOM # js ''{'') = None"
proof -
  have a: "strip_prefix [BOM] (js ''H'') = None" by (simp add: js_def BOM_def)
  have b: "JSON_parse env_example (js ''{'') = None" by (simp add: env_example_def js_def)
  have c: "JSON_parse env_example (js ''H'') = Some header_example"
    by (simp add: env_example_def js_def)
  show ?thesis
    using BrokenBMSJSONParse_strips_BOM [of "JSON_parse env_example" "js ''H''"]
      BrokenBMSJSONParse_strips_BOM [of "JSON_parse env_example" "js ''{''"] a b c
    by simp
qed

section \<open>The pointer extractor\<close>

lemma strip_prefix_iff: "(strip_prefix p s = Some r) = (s = p @ r)"
  by (induction p s rule: strip_prefix.induct) auto

lemma same_line_append [simp]: "same_line (a @ b) = (same_line a \<and> same_line b)"
  by (simp add: same_line_def)

lemma same_line_Cons [simp]: "same_line (c # b) = (\<not> is_line_terminator c \<and> same_line b)"
  by (simp add: same_line_def)

lemma same_line_Nil [simp]: "same_line []"
  by (simp add: same_line_def)

lemma same_line_attr_open [simp]: "same_line attr_open"
  by (simp add: attr_open_def is_line_terminator_def)

text \<open>The lazy group stops at the first quote, which has to come before the line ends.\<close>

lemma re_value_iff:
  "(re_value acc s = Some v) =
     (\<exists>u rest. s = u @ quote # rest \<and> v = acc @ u \<and> same_line u \<and> quote \<notin> set u)"
proof (induction s arbitrary: acc)
  case Nil
  show ?case by simp
next
  case (Cons c cs)
  show ?case
  proof (cases "c = quote")
    case True
    have "(\<exists>u rest. c # cs = u @ quote # rest \<and> v = acc @ u \<and> same_line u \<and> quote \<notin> set u)
          = (v = acc)"
    proof
      assume "\<exists>u rest. c # cs = u @ quote # rest \<and> v = acc @ u \<and> same_line u
          \<and> quote \<notin> set u"
      then obtain u rest where u: "c # cs = u @ quote # rest" "v = acc @ u" "quote \<notin> set u"
        by blast
      then have "u = []" using True by (cases u) auto
      then show "v = acc" using u by simp
    next
      assume "v = acc"
      then have "c # cs = [] @ quote # cs \<and> v = acc @ [] \<and> same_line [] \<and> quote \<notin> set []"
        using True by simp
      then show "\<exists>u rest. c # cs = u @ quote # rest \<and> v = acc @ u \<and> same_line u
          \<and> quote \<notin> set u"
        by blast
    qed
    then show ?thesis using True by (auto simp: quote_def)
  next
    case False
    have shape:
      "(\<exists>u rest. c # cs = u @ quote # rest \<and> v = acc @ u \<and> same_line u \<and> quote \<notin> set u)
       = (\<not> is_line_terminator c \<and>
          (\<exists>u' rest. cs = u' @ quote # rest \<and> v = (acc @ [c]) @ u' \<and> same_line u'
             \<and> quote \<notin> set u'))"
      (is "?L = ?R")
    proof
      assume ?L
      then obtain u rest where u: "c # cs = u @ quote # rest" "v = acc @ u" "same_line u"
        "quote \<notin> set u" by blast
      then obtain u' where u': "u = c # u'" using False by (cases u) auto
      then have "cs = u' @ quote # rest \<and> v = (acc @ [c]) @ u' \<and> same_line u'
          \<and> quote \<notin> set u'"
        "\<not> is_line_terminator c"
        using u by auto
      then show ?R by blast
    next
      assume ?R
      then obtain u' rest where u': "\<not> is_line_terminator c" "cs = u' @ quote # rest"
        "v = (acc @ [c]) @ u'" "same_line u'" "quote \<notin> set u'" by blast
      then have "c # cs = (c # u') @ quote # rest \<and> v = acc @ (c # u') \<and> same_line (c # u')
         \<and> quote \<notin> set (c # u')"
        using False by auto
      then show ?L by blast
    qed
    show ?thesis
      using False Cons.IH [of "acc @ [c]"] unfolding shape by (auto simp: quote_def)
  qed
qed

lemma re_value_some:
  "same_line u \<Longrightarrow> re_value acc (u @ quote # rest) \<noteq> None"
proof (induction u arbitrary: acc)
  case Nil
  show ?case by (simp add: quote_def)
next
  case (Cons c u)
  then show ?case by auto
qed

lemma re_attr_here_iff:
  "(re_attr_here s = Some v) =
     (\<exists>rest. s = attr_open @ v @ quote # rest \<and> same_line v \<and> quote \<notin> set v)"
proof (cases "strip_prefix attr_open s")
  case None
  then have "\<And>r. s \<noteq> attr_open @ r"
    using strip_prefix_iff [of attr_open s] by auto
  then show ?thesis using None by (auto simp: re_attr_here_def attr_open_def)
next
  case (Some r)
  then have s: "s = attr_open @ r" by (simp add: strip_prefix_iff)
  have "re_attr_here s = re_value [] r"
    using Some by (simp add: re_attr_here_def attr_open_def)
  then show ?thesis unfolding s by (auto simp: re_value_iff)
qed

text \<open>
  The lazy search for \<^verbatim>\<open>="\<close> takes the first one on the line: when the value after it is
  not closed on the line, the value after a later one is not either.
\<close>

lemma re_attr_iff:
  "(re_attr s = Some v) =
     (\<exists>mid rest. s = mid @ attr_open @ v @ quote # rest
        \<and> same_line mid \<and> \<not> str_includes mid attr_open \<and> same_line v \<and> quote \<notin> set v)"
  (is "?L s = ?R s")
proof
  show "?L s \<Longrightarrow> ?R s"
  proof (induction s)
    case Nil
    then show ?case by (simp add: re_attr_here_def attr_open_def)
  next
    case (Cons c cs)
    show ?case
    proof (cases "re_attr_here (c # cs)")
      case (Some w)
      then have "w = v" using Cons.prems by simp
      then obtain rest where "c # cs = [] @ attr_open @ v @ quote # rest" "same_line v"
        "quote \<notin> set v"
        using Some re_attr_here_iff [of "c # cs" w] by auto
      moreover have "\<not> str_includes [] attr_open" by (simp add: attr_open_def)
      ultimately show ?thesis by (metis same_line_Nil)
    next
      case None
      then have c: "\<not> is_line_terminator c" and r: "re_attr cs = Some v"
        using Cons.prems by (auto split: if_splits)
      from Cons.IH [OF r] obtain mid rest where m: "cs = mid @ attr_open @ v @ quote # rest"
        "same_line mid" "\<not> str_includes mid attr_open" "same_line v" "quote \<notin> set v"
        by blast
      have "strip_prefix attr_open (c # mid) = None"
      proof (rule ccontr)
        assume "strip_prefix attr_open (c # mid) \<noteq> None"
        then obtain r' where r': "c # mid = attr_open @ r'"
          by (auto simp: strip_prefix_iff)
        then have sl: "same_line r'" using m(2) c
          by (auto simp: attr_open_def)
        have "c # cs = attr_open @ (r' @ attr_open @ v) @ quote # rest"
          using r' m(1) by (metis append_Cons append.assoc)
        then have "strip_prefix attr_open (c # cs)
            = Some ((r' @ attr_open @ v) @ quote # rest)"
          by (simp only: strip_prefix_iff)
        then have "re_attr_here (c # cs) = re_value [] ((r' @ attr_open @ v) @ quote # rest)"
          by (simp add: re_attr_here_def attr_open_def)
        moreover have "re_value [] ((r' @ attr_open @ v) @ quote # rest) \<noteq> None"
          by (rule re_value_some) (simp add: sl m(4))
        ultimately show False using None by simp
      qed
      then have "\<not> str_includes (c # mid) attr_open" using m(3) by simp
      moreover have "c # cs = (c # mid) @ attr_open @ v @ quote # rest" using m(1) by simp
      moreover have "same_line (c # mid)" using c m(2) by simp
      ultimately show ?thesis using m(4,5) by blast
    qed
  qed
next
  assume "?R s"
  then obtain mid rest where m: "s = mid @ attr_open @ v @ quote # rest"
    "same_line mid" "\<not> str_includes mid attr_open" "same_line v" "quote \<notin> set v"
    by blast
  have here: "re_attr_here (attr_open @ v @ quote # rest) = Some v"
    using m(4,5) by (auto simp: re_attr_here_iff)
  have "re_attr (mid @ attr_open @ v @ quote # rest) = Some v"
    using m(2,3)
  proof (induction mid)
    case Nil
    have "re_attr (attr_open @ v @ quote # rest) = Some v"
      using here by (simp add: attr_open_def)
    then show ?case by simp
  next
    case (Cons c mid)
    have no: "strip_prefix attr_open (c # mid) = None" and rec: "\<not> str_includes mid attr_open"
      using Cons.prems(2) by auto
    have "strip_prefix attr_open (c # mid @ attr_open @ v @ quote # rest) = None"
      using no by (cases mid) (auto simp: attr_open_def)
    then have "re_attr_here (c # mid @ attr_open @ v @ quote # rest) = None"
      by (simp add: re_attr_here_def attr_open_def)
    moreover have "re_attr (mid @ attr_open @ v @ quote # rest) = Some v"
      using Cons.IH Cons.prems(1) rec by simp
    ultimately show ?case using Cons.prems(1) by simp
  qed
  then show "?L s" using m(1) by simp
qed

lemma re_name_iff:
  "(re_name s = Some v) = (\<exists>r. s = bmstable_marker @ r \<and> re_attr r = Some v)"
proof (cases "strip_prefix bmstable_marker s")
  case None
  then have "\<And>r. s \<noteq> bmstable_marker @ r"
    using strip_prefix_iff [of bmstable_marker s] by auto
  then show ?thesis using None by (auto simp: re_name_def)
next
  case (Some r)
  then have "s = bmstable_marker @ r" by (simp add: strip_prefix_iff)
  then show ?thesis using Some by (auto simp: re_name_def)
qed

lemma re_name_no_space:
  "re_name (c # cs) = Some v \<Longrightarrow> \<not> is_space c"
proof -
  assume "re_name (c # cs) = Some v"
  then obtain r where "c # cs = bmstable_marker @ r" by (auto simp: re_name_iff)
  then have "c = of_char CHR ''n''" by (simp add: bmstable_marker_def js_def)
  then show ?thesis by (simp add: is_space_def is_white_space_def is_line_terminator_def)
qed

lemma re_name_Nil: "re_name [] = None"
  by (simp add: re_name_def bmstable_marker_def js_def)

text \<open>
  The greedy spaces end where the name begins: the name starts with \<open>n\<close>, which is no
  space, so giving spaces back never helps.
\<close>

lemma re_spaces_iff:
  "(re_spaces s = Some v) =
     (\<exists>ws r. s = ws @ r \<and> list_all is_space ws \<and> re_name r = Some v)"
  (is "?L s = ?R s")
proof
  show "?L s \<Longrightarrow> ?R s"
  proof (induction s)
    case Nil
    then show ?case by (simp add: re_name_Nil)
  next
    case (Cons c cs)
    show ?case
    proof (cases "is_space c \<and> re_spaces cs = Some v")
      case True
      then obtain ws r where "cs = ws @ r" "list_all is_space ws" "re_name r = Some v"
        using Cons.IH by blast
      then have "c # cs = (c # ws) @ r \<and> list_all is_space (c # ws) \<and> re_name r = Some v"
        using True by simp
      then show ?thesis by blast
    next
      case False
      then have "re_name (c # cs) = Some v"
        using Cons.prems by (auto split: if_splits option.splits)
      then have "c # cs = [] @ (c # cs) \<and> list_all is_space [] \<and> re_name (c # cs) = Some v"
        by simp
      then show ?thesis by blast
    qed
  qed
next
  assume "?R s"
  then obtain ws r where w: "s = ws @ r" "list_all is_space ws" "re_name r = Some v" by blast
  have "re_spaces (ws @ r) = Some v" using w(2)
  proof (induction ws)
    case Nil
    show ?case
    proof (cases r)
      case Nil
      then show ?thesis using w(3) by (simp add: re_name_Nil)
    next
      case (Cons c cs)
      then have "\<not> is_space c" using w(3) re_name_no_space by blast
      then show ?thesis using Cons w(3) by simp
    qed
  next
    case (Cons c ws)
    then show ?case by simp
  qed
  then show "?L s" using w(1) by simp
qed

lemma re_meta_iff:
  "(re_meta s = Some v) =
     (\<exists>ws r. s = js ''<meta'' @ ws @ r \<and> ws \<noteq> [] \<and> list_all is_space ws
        \<and> re_name r = Some v)"
  (is "?L = ?R")
proof (cases "strip_prefix (js ''<meta'') s")
  case None
  then have "\<And>r. s \<noteq> js ''<meta'' @ r"
    using strip_prefix_iff [of "js ''<meta''" s] by auto
  then show ?thesis using None by (auto simp: re_meta_def)
next
  case (Some t)
  then have s: "s = js ''<meta'' @ t" by (simp add: strip_prefix_iff)
  have R: "?R = (\<exists>ws r. t = ws @ r \<and> ws \<noteq> [] \<and> list_all is_space ws \<and> re_name r = Some v)"
    unfolding s by simp
  show ?thesis
  proof (cases t)
    case Nil
    then show ?thesis using Some unfolding R by (simp add: re_meta_def)
  next
    case (Cons c cs)
    have L: "?L = (is_space c \<and> re_spaces cs = Some v)"
      using Some Cons by (simp add: re_meta_def)
    have "(\<exists>ws r. c # cs = ws @ r \<and> ws \<noteq> [] \<and> list_all is_space ws \<and> re_name r = Some v)
          = (is_space c
             \<and> (\<exists>ws' r. cs = ws' @ r \<and> list_all is_space ws' \<and> re_name r = Some v))"
      (is "?A = ?B")
    proof
      assume ?A
      then obtain ws r where a: "c # cs = ws @ r" "ws \<noteq> []" "list_all is_space ws"
        "re_name r = Some v" by blast
      then obtain ws' where "ws = c # ws'" by (cases ws) auto
      then have "is_space c" "cs = ws' @ r \<and> list_all is_space ws' \<and> re_name r = Some v"
        using a by auto
      then show ?B by blast
    next
      assume ?B
      then obtain ws' r where "is_space c" "cs = ws' @ r" "list_all is_space ws'"
        "re_name r = Some v" by blast
      then have "c # cs = (c # ws') @ r \<and> c # ws' \<noteq> [] \<and> list_all is_space (c # ws')
          \<and> re_name r = Some v" by simp
      then show ?A by blast
    qed
    then show ?thesis unfolding L R Cons by (simp add: re_spaces_iff)
  qed
qed

lemma re_meta_tag: "(re_meta s = Some v) = tag_with_value s v"
proof
  assume "re_meta s = Some v"
  then obtain ws r where a: "s = js ''<meta'' @ ws @ r" "ws \<noteq> []" "list_all is_space ws"
    "re_name r = Some v" by (auto simp: re_meta_iff)
  then obtain r' where b: "r = bmstable_marker @ r'" "re_attr r' = Some v"
    by (auto simp: re_name_iff)
  then obtain mid rest where c: "r' = mid @ attr_open @ v @ quote # rest" "same_line mid"
    "\<not> str_includes mid attr_open" "same_line v" "quote \<notin> set v"
    by (auto simp: re_attr_iff)
  have "s = js ''<meta'' @ ws @ bmstable_marker @ mid @ attr_open @ v @ quote # rest"
    using a(1) b(1) c(1) by simp
  then show "tag_with_value s v"
    unfolding tag_with_value_def using a(2,3) c(2-5) by blast
next
  assume "tag_with_value s v"
  then obtain ws mid rest where
    t: "s = js ''<meta'' @ ws @ bmstable_marker @ mid @ attr_open @ v @ quote # rest"
      "ws \<noteq> []" "list_all is_space ws" "same_line mid" "\<not> str_includes mid attr_open"
      "same_line v" "quote \<notin> set v"
    unfolding tag_with_value_def by blast
  have "re_attr (mid @ attr_open @ v @ quote # rest) = Some v"
    using t(4-7) re_attr_iff [of "mid @ attr_open @ v @ quote # rest" v] by blast
  then have "re_name (bmstable_marker @ mid @ attr_open @ v @ quote # rest) = Some v"
    using re_name_iff [of "bmstable_marker @ mid @ attr_open @ v @ quote # rest" v] by blast
  then show "re_meta s = Some v"
    using t(1-3) re_meta_iff [of s v] by blast
qed

lemma re_meta_None: "(re_meta s = None) = (\<forall>w. \<not> tag_with_value s w)"
  using re_meta_tag [of s] by (cases "re_meta s") auto

text \<open>\<open>exec\<close> returns the match at the leftmost start that has one.\<close>

lemma re_exec_iff:
  "(re_exec s = Some v) =
     (\<exists>pre suf. s = pre @ suf \<and> re_meta suf = Some v
        \<and> (\<forall>i < length pre. re_meta (drop i s) = None))"
  (is "?L s = ?R s")
proof (induction s)
  case Nil
  show ?case by simp
next
  case (Cons c cs)
  show ?case
  proof (cases "re_meta (c # cs)")
    case (Some w)
    have "?R (c # cs) = (w = v)"
    proof
      assume "?R (c # cs)"
      then obtain pre suf where p: "c # cs = pre @ suf" "re_meta suf = Some v"
        "\<forall>i < length pre. re_meta (drop i (c # cs)) = None" by blast
      have "pre = []"
      proof (rule ccontr)
        assume "pre \<noteq> []"
        then have "re_meta (drop 0 (c # cs)) = None" using p(3) by blast
        then show False using Some by simp
      qed
      then show "w = v" using p Some by simp
    next
      assume "w = v"
      then have "c # cs = [] @ (c # cs) \<and> re_meta (c # cs) = Some v
         \<and> (\<forall>i < length ([]::jsstring). re_meta (drop i (c # cs)) = None)"
        using Some by simp
      then show "?R (c # cs)" by blast
    qed
    then show ?thesis using Some by auto
  next
    case None
    have "?R (c # cs) = ?R cs"
    proof
      assume "?R (c # cs)"
      then obtain pre suf where p: "c # cs = pre @ suf" "re_meta suf = Some v"
        "\<forall>i < length pre. re_meta (drop i (c # cs)) = None" by blast
      then have "pre \<noteq> []" using None by (cases pre) auto
      then obtain pre' where pre': "pre = c # pre'" using p(1) by (cases pre) auto
      have "\<forall>i < length pre'. re_meta (drop i cs) = None"
      proof (intro allI impI)
        fix i assume "i < length pre'"
        then have "Suc i < length pre" using pre' by simp
        then have "re_meta (drop (Suc i) (c # cs)) = None" using p(3) by blast
        then show "re_meta (drop i cs) = None" by simp
      qed
      then have "cs = pre' @ suf \<and> re_meta suf = Some v
        \<and> (\<forall>i < length pre'. re_meta (drop i cs) = None)"
        using p pre' by simp
      then show "?R cs" by blast
    next
      assume "?R cs"
      then obtain pre suf where p: "cs = pre @ suf" "re_meta suf = Some v"
        "\<forall>i < length pre. re_meta (drop i cs) = None" by blast
      have "\<forall>i < length (c # pre). re_meta (drop i (c # cs)) = None"
      proof (intro allI impI)
        fix i assume i: "i < length (c # pre)"
        show "re_meta (drop i (c # cs)) = None"
        proof (cases i)
          case 0
          then show ?thesis using None by simp
        next
          case (Suc j)
          then have "j < length pre" using i by simp
          then show ?thesis using p(3) Suc by simp
        qed
      qed
      then have "c # cs = (c # pre) @ suf \<and> re_meta suf = Some v
         \<and> (\<forall>i < length (c # pre). re_meta (drop i (c # cs)) = None)"
        using p by simp
      then show "?R (c # cs)" by blast
    qed
    then show ?thesis using None Cons.IH by simp
  qed
qed

lemma re_exec_None:
  "(re_exec s = None) = (\<forall>i \<le> length s. re_meta (drop i s) = None)"
proof (induction s)
  case Nil
  show ?case by simp
next
  case (Cons c cs)
  have "(\<forall>i \<le> length (c # cs). re_meta (drop i (c # cs)) = None)
        = (re_meta (c # cs) = None \<and> (\<forall>i \<le> length cs. re_meta (drop i cs) = None))"
    (is "?A = ?B")
  proof
    assume a: ?A
    have "re_meta (drop 0 (c # cs)) = None" using a by blast
    moreover have "\<forall>i \<le> length cs. re_meta (drop i cs) = None"
    proof (intro allI impI)
      fix i assume "i \<le> length cs"
      then have "Suc i \<le> length (c # cs)" by simp
      then have "re_meta (drop (Suc i) (c # cs)) = None" using a by blast
      then show "re_meta (drop i cs) = None" by simp
    qed
    ultimately show ?B by simp
  next
    assume b: ?B
    show ?A
    proof (intro allI impI)
      fix i assume i: "i \<le> length (c # cs)"
      show "re_meta (drop i (c # cs)) = None"
      proof (cases i)
        case 0
        then show ?thesis using b by simp
      next
        case (Suc j)
        then have "j \<le> length cs" using i by simp
        then show ?thesis using b Suc by simp
      qed
    qed
  qed
  then show ?case using Cons.IH by (auto split: option.splits)
qed

lemma load_header_no_tag:
  "FetchWithRetry (fetch e) url 0 = (Inr res, n) \<Longrightarrow> text_of res = Some html \<Longrightarrow>
   IsHTMLOrJSON res html = HTML \<Longrightarrow> ReadMetaTag html = None \<or> ReadMetaTag html = Some [] \<Longrightarrow>
   load_header e url = Inl (NoBmstableTag url)"
  unfolding load_header_def by auto

lemma ReadMetaTag_Some_iff:
  "(ReadMetaTag html = Some v) =
     (\<exists>pre tag. html = pre @ tag \<and> tag_with_value tag v
        \<and> (\<forall>i < length pre. \<forall>w. \<not> tag_with_value (drop i html) w))"
  unfolding ReadMetaTag_def re_exec_iff re_meta_tag re_meta_None ..

lemma ReadMetaTag_None_iff:
  "(ReadMetaTag html = None) = (\<forall>i \<le> length html. \<forall>w. \<not> tag_with_value (drop i html) w)"
  unfolding ReadMetaTag_def re_exec_None re_meta_None ..

lemma LoadBMSTable_no_tag:
  "FetchWithRetry (fetch e) url 0 = (Inr res, n) \<and> text_of res = Some html
        \<and> IsHTMLOrJSON res html = HTML
        \<and> (ReadMetaTag html = None \<or> ReadMetaTag html = Some []) \<longrightarrow>
      LoadBMSTable e url = Inl (NoBmstableTag url)"
proof
  assume a: "FetchWithRetry (fetch e) url 0 = (Inr res, n) \<and> text_of res = Some html
        \<and> IsHTMLOrJSON res html = HTML
        \<and> (ReadMetaTag html = None \<or> ReadMetaTag html = Some [])"
  then have "load_header e url = Inl (NoBmstableTag url)"
    using load_header_no_tag [of e url res n html] by blast
  then show "LoadBMSTable e url = Inl (NoBmstableTag url)"
    by (simp add: LoadBMSTable_def)
qed

text \<open>
  C9, as the code has it. For every HTML text, \<open>ReadMetaTag\<close> returns \<open>v\<close> exactly when the
  text has a place where \<^verbatim>\<open><meta\<close>, one or more spaces and \<^verbatim>\<open>name="bmstable"\<close> are followed,
  with no line terminator in between, by \<^verbatim>\<open>="\<close>, \<open>v\<close> and a quote, \<open>v\<close> being what stands between
  the first \<^verbatim>\<open>="\<close> after the name and the next quote, and no earlier place of the text is
  of that shape. What stands before that \<^verbatim>\<open>="\<close> is not looked at, so the name of the
  attribute does not matter, and later markers are not used. It returns \<open>null\<close> exactly when
  no place of the text is of that shape. When a page taken as HTML gives \<open>null\<close>, or an
  empty value, \<open>LoadBMSTable\<close> fails with the error of the missing tag, which carries the
  URL that was asked for.
\<close>

theorem ReadMetaTag_first_value:
  "(ReadMetaTag html = Some v) =
     (\<exists>pre tag. html = pre @ tag \<and> tag_with_value tag v
        \<and> (\<forall>i < length pre. \<forall>w. \<not> tag_with_value (drop i html) w))
   \<and> (ReadMetaTag html = None) = (\<forall>i \<le> length html. \<forall>w. \<not> tag_with_value (drop i html) w)
   \<and> (FetchWithRetry (fetch e) url 0 = (Inr res, n) \<and> text_of res = Some html
        \<and> IsHTMLOrJSON res html = HTML
        \<and> (ReadMetaTag html = None \<or> ReadMetaTag html = Some []) \<longrightarrow>
      LoadBMSTable e url = Inl (NoBmstableTag url))"
  by (rule conjI, rule ReadMetaTag_Some_iff, rule conjI, rule ReadMetaTag_None_iff,
      rule LoadBMSTable_no_tag)

theorem ReadMetaTag_first_value_witness:
  "ReadMetaTag html_example = Some (js ''head.json'')
   \<and> (\<exists>pre tag. html_example = pre @ tag \<and> tag_with_value tag (js ''head.json''))
   \<and> ReadMetaTag html_two_lines = None
   \<and> LoadBMSTable env_no_tag (js ''table.html'') = Inl (NoBmstableTag (js ''table.html''))"
proof -
  note t1 = ReadMetaTag_first_value [of html_example "js ''head.json''"]
  have "\<exists>pre tag. html_example = pre @ tag \<and> tag_with_value tag (js ''head.json'')
      \<and> (\<forall>i < length pre. \<forall>w. \<not> tag_with_value (drop i html_example) w)"
    using conjunct1 [OF t1] ReadMetaTag_html_example by (rule iffD1)
  then have 1: "\<exists>pre tag. html_example = pre @ tag \<and> tag_with_value tag (js ''head.json'')"
    by blast
  have f: "FetchWithRetry (fetch env_no_tag) (js ''table.html'') 0
      = (Inr (page None html_two_lines), Suc 0)"
    unfolding env_no_tag_def env.simps
    by (rule FetchWithRetry_site) (simp_all add: js_def)
  have h: "IsHTMLOrJSON (page None html_two_lines) html_two_lines = HTML"
    by (simp add: IsHTMLOrJSON_def guess_doctype_def html_two_lines_def js_def
        is_space_def is_white_space_def is_line_terminator_def)
  note t2 = ReadMetaTag_first_value [of html_two_lines "[]" env_no_tag "js ''table.html''"
      "page None html_two_lines" "Suc 0"]
  have "FetchWithRetry (fetch env_no_tag) (js ''table.html'') 0
          = (Inr (page None html_two_lines), Suc 0)
        \<and> text_of (page None html_two_lines) = Some html_two_lines
        \<and> IsHTMLOrJSON (page None html_two_lines) html_two_lines = HTML
        \<and> (ReadMetaTag html_two_lines = None \<or> ReadMetaTag html_two_lines = Some [])"
    using f h ReadMetaTag_html_two_lines by simp
  then have 2: "LoadBMSTable env_no_tag (js ''table.html'')
      = Inl (NoBmstableTag (js ''table.html''))"
    using conjunct2 [OF conjunct2 [OF t2]] by (rule rev_mp)
  show ?thesis
    using 1 2 ReadMetaTag_html_example ReadMetaTag_html_two_lines by blast
qed

theorem ReadMetaTag_next_line_counterexample:
  "spec_first_quoted_value html_two_lines = Some (js ''head.json'')
   \<and> ReadMetaTag html_two_lines = None
   \<and> LoadBMSTable env_no_tag (js ''table.html'') = Inl (NoBmstableTag (js ''table.html''))"
proof -
  have f: "FetchWithRetry (fetch env_no_tag) (js ''table.html'') 0
      = (Inr (page None html_two_lines), Suc 0)"
    unfolding env_no_tag_def env.simps
    by (rule FetchWithRetry_site) (simp_all add: js_def)
  have h: "IsHTMLOrJSON (page None html_two_lines) html_two_lines = HTML"
    by (simp add: IsHTMLOrJSON_def guess_doctype_def html_two_lines_def js_def
        is_space_def is_white_space_def is_line_terminator_def)
  have "load_header env_no_tag (js ''table.html'') = Inl (NoBmstableTag (js ''table.html''))"
    by (rule load_header_no_tag [OF f _ h]) (simp_all add: ReadMetaTag_html_two_lines)
  then have "LoadBMSTable env_no_tag (js ''table.html'')
      = Inl (NoBmstableTag (js ''table.html''))"
    by (simp add: LoadBMSTable_def)
  moreover have "spec_first_quoted_value html_two_lines = Some (js ''head.json'')"
    by (simp add: spec_first_quoted_value_def html_two_lines_def bmstable_marker_def
        attr_open_def quote_def js_def)
  ultimately show ?thesis by (simp add: ReadMetaTag_html_two_lines)
qed

end
